theory Spec2Isabelle
  imports Main
begin

section \<open>The image index of the plazas dashboard (imageIndex.js)\<close>

text \<open>
  A shallow embedding of \<^verbatim>\<open>imageIndex.js\<close> (v3.0), the client-side index that maps a
  plaza key to the URLs of its images. Each definition below carries the name of the
  JavaScript function it embeds.

  Modelling conventions.
  \<^item> A JavaScript string is a \<open>string\<close>: a list of code units, one \<open>char\<close> for each code
    unit in the range U+0000..U+00FF. \<open>length\<close> is the source's \<^verbatim>\<open>.length\<close>.
  \<^item> A JavaScript \<^verbatim>\<open>Map\<close> is an association list in insertion order; \<open>map_set\<close> is
    \<^verbatim>\<open>Map.prototype.set\<close> (an existing key keeps its place), \<open>map_of\<close> is \<^verbatim>\<open>get\<close>.
    A \<^verbatim>\<open>Map\<close> does not say what its values are: the build puts arrays of images in the
    index and strings in the aliases, and a \<^verbatim>\<open>Map\<close> read back from the store holds what
    the text under that key holds. A value is a \<open>valor\<close>, of either kind.
  \<^item> An optional JSON field is an \<open>option\<close>: \<open>None\<close> stands for \<^verbatim>\<open>undefined\<close> and
    \<^verbatim>\<open>null\<close>. Fields that are present hold strings (numbers for the sizes).
  \<^item> A \<^verbatim>\<open>fetch\<close> answers with a \<open>response\<close>; the clock, the network and the quota of
    the store are a \<open>world\<close> that the functions read, and every function that changes the
    module's variables or the store takes the \<open>state\<close> and returns the new one.
  \<^item> The state keeps, in \<open>traza\<close>, what the run has done so far that can be seen from
    outside: its requests, its readings of the clock and its console messages. An
    \<^verbatim>\<open>await\<close> is a call: the functions run one after the other, as the source's
    single thread of control does within one call.
  \<^item> Notifications on the page (\<^verbatim>\<open>mostrarNotificacion\<close>) are left out.
\<close>

subsection \<open>Strings\<close>

definition is_space :: "char \<Rightarrow> bool" where
  \<comment> \<open>WhiteSpace and LineTerminator of ECMAScript below U+0100: what \<^verbatim>\<open>trim\<close> and \<^verbatim>\<open>\s\<close> take.\<close>
  "is_space c \<longleftrightarrow>
     c = CHR 0x09 \<or> c = CHR 0x0A \<or> c = CHR 0x0B \<or> c = CHR 0x0C \<or> c = CHR 0x0D \<or>
     c = CHR 0x20 \<or> c = CHR 0xA0"

definition is_digit :: "char \<Rightarrow> bool" where
  \<comment> \<open>\<^verbatim>\<open>\d\<close>\<close>
  "is_digit c \<longleftrightarrow> 48 \<le> (of_char c :: nat) \<and> (of_char c :: nat) \<le> 57"

definition is_upper :: "char \<Rightarrow> bool" where
  "is_upper c \<longleftrightarrow>
     (let n = (of_char c :: nat)
      in (65 \<le> n \<and> n \<le> 90) \<or> (192 \<le> n \<and> n \<le> 222 \<and> n \<noteq> 215))"

definition is_lower_ascii :: "char \<Rightarrow> bool" where
  "is_lower_ascii c \<longleftrightarrow> 97 \<le> (of_char c :: nat) \<and> (of_char c :: nat) \<le> 122"

definition lower_char :: "char \<Rightarrow> char" where
  "lower_char c = (if is_upper c then char_of ((of_char c :: nat) + 32) else c)"

definition upper_char_ascii :: "char \<Rightarrow> char" where
  "upper_char_ascii c = (if is_lower_ascii c then char_of ((of_char c :: nat) - 32) else c)"

definition toLowerCase :: "string \<Rightarrow> string" where
  "toLowerCase s = map lower_char s"

definition trim :: "string \<Rightarrow> string" where
  "trim s = rev (dropWhile is_space (rev (dropWhile is_space s)))"

definition startsWith :: "string \<Rightarrow> string \<Rightarrow> bool" where
  "startsWith s p \<longleftrightarrow> take (length p) s = p"

fun str_includes :: "string \<Rightarrow> string \<Rightarrow> bool" where
  \<comment> \<open>\<^verbatim>\<open>s.includes(t)\<close>: \<open>t\<close> occurs in \<open>s\<close> at some position.\<close>
  "str_includes [] t = (t = [])"
| "str_includes (c # cs) t = (startsWith (c # cs) t \<or> str_includes cs t)"

definition padStart :: "nat \<Rightarrow> char \<Rightarrow> string \<Rightarrow> string" where
  "padStart n c s = replicate (n - length s) c @ s"

definition truthy :: "string option \<Rightarrow> bool" where
  \<comment> \<open>A string-valued field in a condition: absent and the empty string are falsy.\<close>
  "truthy v \<longleftrightarrow> (case v of None \<Rightarrow> False | Some s \<Rightarrow> s \<noteq> [])"

definition nullish_or :: "'a option \<Rightarrow> 'a option \<Rightarrow> 'a option" where
  \<comment> \<open>\<^verbatim>\<open>a ?? b\<close>\<close>
  "nullish_or a b = (case a of Some x \<Rightarrow> Some x | None \<Rightarrow> b)"

subsection \<open>Map\<close>

fun map_set :: "'k \<Rightarrow> 'v \<Rightarrow> ('k \<times> 'v) list \<Rightarrow> ('k \<times> 'v) list" where
  "map_set k v [] = [(k, v)]"
| "map_set k v ((k', v') # m) = (if k' = k then (k, v) # m else (k', v') # map_set k v m)"

fun map_delete :: "'k \<Rightarrow> ('k \<times> 'v) list \<Rightarrow> ('k \<times> 'v) list" where
  "map_delete k [] = []"
| "map_delete k ((k', v') # m) = (if k' = k then m else (k', v') # map_delete k m)"

definition new_Map :: "('k \<times> 'v) list \<Rightarrow> ('k \<times> 'v) list" where
  \<comment> \<open>\<^verbatim>\<open>new Map(pairs)\<close>: the pairs are set one after the other.\<close>
  "new_Map pairs = fold (\<lambda>(k, v) m. map_set k v m) pairs []"

subsection \<open>The tree served by /api/drive-tree\<close>

record item =
  item_i :: "string option"
  item_id :: "string option"
  item_n :: "string option"
  item_name :: "string option"
  item_s :: "int option"
  item_size :: "int option"
  item_mediumUrl :: "string option"
  item_thumbnailUrl :: "string option"
  item_directUrl :: "string option"

record carpeta =
  carpeta_k :: "string option"
  carpeta_name :: "string option"
  carpeta_alias :: "string option"
  carpeta_children :: "item list option"

record nodoEstado =
  nodo_children :: "carpeta list option"

record driveData =
  structure_children :: "nodoEstado list option"
  \<comment> \<open>\<^verbatim>\<open>driveData.structure?.children\<close>: \<open>None\<close> when \<^verbatim>\<open>structure\<close> or its children are absent.\<close>

record imagen =
  img_name :: "string option"
  img_url :: string
  img_size :: "int option"

datatype valor =
    Archivos "imagen list"   \<comment> \<open>an array of \<^verbatim>\<open>{name, url, size}\<close>\<close>
  | Texto string             \<comment> \<open>a string\<close>

type_synonym indice = "(string \<times> valor) list"
type_synonym alias_indice = "(string \<times> valor) list"

definition largo :: "valor \<Rightarrow> nat" where
  \<comment> \<open>\<^verbatim>\<open>v.length\<close>\<close>
  "largo v = (case v of Archivos a \<Rightarrow> length a | Texto s \<Rightarrow> length s)"

definition urls_de :: "valor \<Rightarrow> string list option" where
  \<comment> \<open>\<^verbatim>\<open>v.map(img => img.url)\<close>: a string has no \<^verbatim>\<open>map\<close>, the call raises (\<open>None\<close>).\<close>
  "urls_de v = (case v of Archivos a \<Rightarrow> Some (map img_url a) | Texto s \<Rightarrow> None)"

definition falsy_valor :: "valor \<Rightarrow> bool" where
  \<comment> \<open>\<^verbatim>\<open>!v\<close>: an array is truthy, also when empty; the empty string is falsy.\<close>
  "falsy_valor v \<longleftrightarrow> v = Texto []"

subsection \<open>Keys\<close>

definition driveUrl :: "string \<Rightarrow> string" where
  "driveUrl fileId = ''https://drive.google.com/thumbnail?id='' @ fileId @ ''&sz=w800''"

definition tipo_class :: "char \<Rightarrow> bool" where
  \<comment> \<open>\<^verbatim>\<open>[A-Za-z1l]\<close>\<close>
  "tipo_class c \<longleftrightarrow>
     (65 \<le> (of_char c :: nat) \<and> (of_char c :: nat) \<le> 90) \<or> is_lower_ascii c \<or> c = CHR ''1''"

definition digits23 :: "string \<Rightarrow> (string \<times> string) option" where
  \<comment> \<open>\<^verbatim>\<open>(\d{2,3})\<close>, greedy: the group and the rest of the input.\<close>
  "digits23 s =
     (let n = length (takeWhile is_digit (take 3 s))
      in if 2 \<le> n then Some (take n s, drop n s) else None)"

definition digits23_dash :: "string \<Rightarrow> (string \<times> string) option" where
  \<comment> \<open>\<^verbatim>\<open>(\d{2,3})-\<close>: a shorter group cannot help, the third character being a digit.\<close>
  "digits23_dash s =
     (case digits23 s of
        None \<Rightarrow> None
      | Some (g, r) \<Rightarrow> (case r of c # r' \<Rightarrow> if c = CHR ''-'' then Some (g, r') else None | [] \<Rightarrow> None))"

definition patron_here :: "string \<Rightarrow> (char \<times> string \<times> string \<times> string) option" where
  \<comment> \<open>PATRON matched at the head of the input: the four groups.\<close>
  "patron_here s =
     (case s of
        c # d # r \<Rightarrow>
          if tipo_class c \<and> d = CHR ''-'' then
            (case digits23_dash (dropWhile is_space r) of
               None \<Rightarrow> None
             | Some (e, r1) \<Rightarrow>
                 (case digits23_dash r1 of
                    None \<Rightarrow> None
                  | Some (n, r2) \<Rightarrow>
                      (case digits23 r2 of
                         None \<Rightarrow> None
                       | Some (p, r3) \<Rightarrow> Some (c, e, n, p))))
          else None
      | _ \<Rightarrow> None)"

fun patron_exec :: "string \<Rightarrow> (char \<times> string \<times> string \<times> string) option" where
  \<comment> \<open>\<^verbatim>\<open>PATRON.exec(nombre)\<close>: the leftmost match.\<close>
  "patron_exec [] = None"
| "patron_exec (c # cs) =
     (case patron_here (c # cs) of Some m \<Rightarrow> Some m | None \<Rightarrow> patron_exec cs)"

definition normalizarClaveClienteFallback :: "string \<Rightarrow> string" where
  "normalizarClaveClienteFallback nombre =
     (case patron_exec nombre of
        None \<Rightarrow> toLowerCase (trim nombre)
      | Some (m1, m2, m3, m4) \<Rightarrow>
          (let tipo0 = upper_char_ascii m1;
               tipo = (if tipo0 = CHR ''L'' \<or> tipo0 = CHR ''1'' then CHR ''I'' else tipo0);
               e = padStart 2 CHR ''0'' m2;
               n = padStart 3 CHR ''0'' m3;
               p = padStart 2 CHR ''0'' m4
           in toLowerCase ([tipo] @ ''-'' @ e @ ''-'' @ n @ ''-'' @ p)))"

subsection \<open>Building the index\<close>

record construccion =
  nuevoIndice :: indice
  nuevoAlias :: alias_indice
  totalCarpetas :: nat
  totalArchivos :: nat

definition archivo_de :: "item \<Rightarrow> imagen option" where
  \<comment> \<open>The body of the loop over the files of a folder: the entry pushed, if any.\<close>
  "archivo_de it =
     (let fileId = nullish_or (item_i it) (item_id it);
          fileUrl = nullish_or (item_mediumUrl it) (nullish_or (item_thumbnailUrl it)
                      (nullish_or (item_directUrl it)
                         (if truthy fileId then map_option driveUrl fileId else None)))
      in if truthy fileId \<and> truthy fileUrl
         then Some \<lparr> img_name = nullish_or (item_n it) (item_name it),
                     img_url = the fileUrl,
                     img_size = nullish_or (item_s it) (item_size it) \<rparr>
         else None)"

fun recorrer_items :: "item list \<Rightarrow> imagen list \<times> nat \<Rightarrow> imagen list \<times> nat" where
  \<comment> \<open>The loop over \<^verbatim>\<open>carpeta.children\<close>, on \<^verbatim>\<open>archivos\<close> and \<^verbatim>\<open>totalArchivos\<close>.\<close>
  "recorrer_items [] acc = acc"
| "recorrer_items (it # its) (archivos, cuenta) =
     (case archivo_de it of
        Some img \<Rightarrow> recorrer_items its (archivos @ [img], Suc cuenta)
      | None \<Rightarrow> recorrer_items its (archivos, cuenta))"

definition clave_de :: "carpeta \<Rightarrow> string" where
  \<comment> \<open>\<^verbatim>\<open>carpeta.k ?? _normalizarClaveClienteFallback(carpeta.name ?? '')\<close>\<close>
  "clave_de c =
     (case carpeta_k c of
        Some k \<Rightarrow> k
      | None \<Rightarrow> normalizarClaveClienteFallback (case carpeta_name c of Some n \<Rightarrow> n | None \<Rightarrow> []))"

definition procesar_carpeta :: "carpeta \<Rightarrow> construccion \<Rightarrow> construccion" where
  \<comment> \<open>The body of the loop over the folders of a state node.\<close>
  "procesar_carpeta c b =
     (case carpeta_children c of
        None \<Rightarrow> b
      | Some items \<Rightarrow>
          if items = [] then b
          else
            let claveNorm = clave_de c in
            if claveNorm = [] then b
            else
              let (archivos, cuenta) = recorrer_items items ([], totalArchivos b);
                  b1 = b \<lparr> totalArchivos := cuenta \<rparr>
              in if archivos \<noteq> []
                 then b1 \<lparr> nuevoIndice := map_set claveNorm (Archivos archivos) (nuevoIndice b1),
                           nuevoAlias :=
                             (if truthy (carpeta_alias c)
                              then map_set (toLowerCase (the (carpeta_alias c))) (Texto claveNorm)
                                     (nuevoAlias b1)
                              else nuevoAlias b1),
                           totalCarpetas := Suc (totalCarpetas b1) \<rparr>
                 else b1)"

definition procesar_nodo :: "nodoEstado \<Rightarrow> construccion \<Rightarrow> construccion" where
  "procesar_nodo nodo b =
     (case nodo_children nodo of None \<Rightarrow> b | Some carpetas \<Rightarrow> fold procesar_carpeta carpetas b)"

definition construccion_vacia :: construccion where
  "construccion_vacia =
     \<lparr> nuevoIndice = [], nuevoAlias = [], totalCarpetas = 0, totalArchivos = 0 \<rparr>"

definition construir_desde :: "driveData \<Rightarrow> construccion" where
  \<comment> \<open>\<^verbatim>\<open>_descargarYConstruirIndice\<close> after the download: the two nested loops.\<close>
  "construir_desde d =
     fold procesar_nodo (case structure_children d of Some ns \<Rightarrow> ns | None \<Rightarrow> []) construccion_vacia"

subsection \<open>The network, the store and the clock\<close>

datatype 'a response =
    Throws  \<comment> \<open>\<^verbatim>\<open>fetch\<close> or \<^verbatim>\<open>res.json()\<close> raised\<close>
  | NotOk   \<comment> \<open>\<^verbatim>\<open>res.ok\<close> is false\<close>
  | Ok 'a   \<comment> \<open>the parsed body\<close>

record version_payload =
  vp_version :: "string option"
  vp_lastModified :: "string option"

record meta =
  meta_timestamp :: int
  meta_version :: string
  meta_carpetas :: nat
  meta_archivos :: nat

datatype stored =
    SPares "(string \<times> valor) list"
      \<comment> \<open>the JSON text of an array of pairs, as \<^verbatim>\<open>Array.from(map.entries())\<close> gives\<close>
  | SMeta meta     \<comment> \<open>the JSON text of a metadata object\<close>
  | SOtro string   \<comment> \<open>a text that \<^verbatim>\<open>JSON.parse\<close> rejects; \<open>SOtro []\<close> is the empty string\<close>

text \<open>
  A stored text stands for the value it parses to: \<^verbatim>\<open>JSON.parse (JSON.stringify v)\<close> is \<open>v\<close>
  for the shapes the module writes. The index and the aliases are written in the same
  shape, an array of pairs, and the text does not say which of the two it is: the index of
  the version \<^verbatim>\<open>alias_X\<close> and the aliases of the version \<^verbatim>\<open>X\<close> have the same key, and
  \<^verbatim>\<open>new Map\<close> takes either. A metadata object is not iterable, so \<^verbatim>\<open>new Map\<close> raises on
  it, as \<^verbatim>\<open>JSON.parse\<close> does on a text of the third kind. The module writes metadata
  under keys of their own: a key of metadata differs from every key of an index or of
  aliases at its thirteenth character (lemma \<open>claves_meta_aparte\<close> below). So the module
  never puts an array of pairs under a key of metadata, and where the definitions below
  read metadata, a text of another kind counts as one that cannot be read.
\<close>

type_synonym storage = "(string \<times> stored) list"

datatype lugar = EnVersion | EnCache | EnGuardar | EnFallback | EnConstruir | EnBusqueda

datatype evento =
    Construir bool      \<comment> \<open>\<^verbatim>\<open>construirIndiceImagenes(forzarRecarga)\<close> entered\<close>
  | FetchVersion        \<comment> \<open>\<^verbatim>\<open>fetch('/api/drive-tree-version')\<close>\<close>
  | FetchTree           \<comment> \<open>\<^verbatim>\<open>fetch('/api/drive-tree')\<close>\<close>
  | FetchLocal string   \<comment> \<open>\<^verbatim>\<open>fetch('/api/imagenes-local?clave=...')\<close>\<close>
  | DateNow             \<comment> \<open>\<^verbatim>\<open>Date.now()\<close>\<close>
  | LogExacta nat       \<comment> \<open>\<^verbatim>\<open>console.log\<close> of an exact hit, with the number of images\<close>
  | LogAlias nat        \<comment> \<open>\<^verbatim>\<open>console.log\<close> of an alias hit\<close>
  | LogParcial string   \<comment> \<open>\<^verbatim>\<open>console.log\<close> of a partial hit, with the folder\<close>
  | Warn lugar          \<comment> \<open>\<^verbatim>\<open>console.warn\<close> or \<^verbatim>\<open>console.error\<close> of a \<^verbatim>\<open>catch\<close> block\<close>

record world =
  version_resp :: "nat \<Rightarrow> version_payload response"
  tree_resp :: "nat \<Rightarrow> driveData response"
  local_resp :: "nat \<Rightarrow> string \<Rightarrow> string list response"
  clock :: "nat \<Rightarrow> int"
  quota_ok :: "storage \<Rightarrow> string \<Rightarrow> stored \<Rightarrow> bool"

text \<open>
  The world answers the \<open>n\<close>-th request to an endpoint and the \<open>n\<close>-th reading of the
  clock, counted from 0 over the whole run; \<open>quota_ok w ls k v\<close> says whether the
  browser lets \<^verbatim>\<open>localStorage.setItem(k, v)\<close> through when the store is \<open>ls\<close>.
\<close>

record state =
  imagenIndex :: indice
  aliasIndex :: alias_indice
  driveTreeVersion :: "string option"
  localStorage :: storage
  traza :: "evento list"

definition TTL_CACHE_MS :: int where
  "TTL_CACHE_MS = 2 * 60 * 60 * 1000"

definition TTL_LIMPIEZA_MS :: int where
  "TTL_LIMPIEZA_MS = 7 * 24 * 60 * 60 * 1000"

definition CACHE_PREFIX :: string where
  "CACHE_PREFIX = ''imagenIndex_v''"

definition CACHE_META_PREFIX :: string where
  "CACHE_META_PREFIX = ''imagenIndex_meta_v''"

definition emitir :: "evento \<Rightarrow> state \<Rightarrow> state" where
  "emitir e st = st \<lparr> traza := traza st @ [e] \<rparr>"

definition es_FetchLocal :: "evento \<Rightarrow> bool" where
  "es_FetchLocal e \<longleftrightarrow> (case e of FetchLocal c \<Rightarrow> True | _ \<Rightarrow> False)"

definition fetch_version :: "world \<Rightarrow> state \<Rightarrow> version_payload response \<times> state" where
  "fetch_version w st = (version_resp w (count_list (traza st) FetchVersion), emitir FetchVersion st)"

definition fetch_tree :: "world \<Rightarrow> state \<Rightarrow> driveData response \<times> state" where
  "fetch_tree w st = (tree_resp w (count_list (traza st) FetchTree), emitir FetchTree st)"

definition fetch_local :: "world \<Rightarrow> string \<Rightarrow> state \<Rightarrow> string list response \<times> state" where
  "fetch_local w clave st =
     (local_resp w (length (filter es_FetchLocal (traza st))) clave, emitir (FetchLocal clave) st)"

definition date_now :: "world \<Rightarrow> state \<Rightarrow> int \<times> state" where
  "date_now w st = (clock w (count_list (traza st) DateNow), emitir DateNow st)"

definition truthy_item :: "stored option \<Rightarrow> bool" where
  \<comment> \<open>The result of \<^verbatim>\<open>getItem\<close> in a condition: \<^verbatim>\<open>null\<close> and the empty string are falsy.\<close>
  "truthy_item v \<longleftrightarrow> (case v of None \<Rightarrow> False | Some x \<Rightarrow> x \<noteq> SOtro [])"

definition parse_meta :: "stored \<Rightarrow> meta option" where
  "parse_meta v = (case v of SMeta m \<Rightarrow> Some m | _ \<Rightarrow> None)"

definition parse_indice :: "stored \<Rightarrow> indice option" where
  \<comment> \<open>\<^verbatim>\<open>new Map(JSON.parse(cachedIndex))\<close>: any array of pairs is taken; \<open>None\<close> when it raises.\<close>
  "parse_indice v = (case v of SPares m \<Rightarrow> Some (new_Map m) | _ \<Rightarrow> None)"

definition parse_alias :: "stored option \<Rightarrow> alias_indice option" where
  \<comment> \<open>\<^verbatim>\<open>cachedAlias ? new Map(JSON.parse(cachedAlias)) : new Map()\<close>\<close>
  "parse_alias v =
     (if truthy_item v then (case the v of SPares m \<Rightarrow> Some (new_Map m) | _ \<Rightarrow> None)
      else Some [])"

definition setItem :: "world \<Rightarrow> string \<Rightarrow> stored \<Rightarrow> storage \<Rightarrow> storage option" where
  \<comment> \<open>\<open>None\<close> when the browser raises (the quota is exceeded).\<close>
  "setItem w k v ls = (if quota_ok w ls k v then Some (map_set k v ls) else None)"

record resultado =
  success :: bool
  fromCache :: "bool option"
  isFallback :: "bool option"
  stats :: "(nat \<times> nat) option"
  fallo :: "lugar option"
  \<comment> \<open>\<open>fallo\<close> stands for the \<^verbatim>\<open>error\<close> field, present in a failed result only.\<close>

definition resultado_cache :: resultado where
  \<comment> \<open>\<^verbatim>\<open>{ success: true, fromCache: true }\<close>\<close>
  "resultado_cache =
     \<lparr> success = True, fromCache = Some True, isFallback = None, stats = None, fallo = None \<rparr>"

definition resultado_fallback :: resultado where
  \<comment> \<open>\<^verbatim>\<open>{ success: true, fromCache: true, isFallback: true }\<close>\<close>
  "resultado_fallback =
     \<lparr> success = True, fromCache = Some True, isFallback = Some True, stats = None, fallo = None \<rparr>"

subsection \<open>The local cache\<close>

definition cargarDesdeCacheLocal :: "world \<Rightarrow> string \<Rightarrow> state \<Rightarrow> resultado option \<times> state" where
  "cargarDesdeCacheLocal w versionActual st =
     (let ls = localStorage st;
          cachedIndex = map_of ls (CACHE_PREFIX @ versionActual);
          cachedAlias = map_of ls (CACHE_PREFIX @ ''alias_'' @ versionActual);
          cachedMeta = map_of ls (CACHE_META_PREFIX @ versionActual)
      in if \<not> truthy_item cachedIndex \<or> \<not> truthy_item cachedMeta then (None, st)
         else
           (case parse_meta (the cachedMeta) of
              None \<Rightarrow> (None, emitir (Warn EnCache) st)
            | Some m \<Rightarrow>
                let (ahora, st1) = date_now w st in
                if ahora - meta_timestamp m \<ge> TTL_CACHE_MS then (None, st1)
                else
                  (case parse_indice (the cachedIndex) of
                     None \<Rightarrow> (None, emitir (Warn EnCache) st1)
                   | Some idx \<Rightarrow>
                       let st2 = st1 \<lparr> imagenIndex := idx \<rparr> in
                       (case parse_alias cachedAlias of
                          None \<Rightarrow> (None, emitir (Warn EnCache) st2)
                        | Some al \<Rightarrow>
                            (Some resultado_cache,
                             st2 \<lparr> aliasIndex := al, driveTreeVersion := Some versionActual \<rparr>)))))"

definition removeVersion :: "string \<Rightarrow> storage \<Rightarrow> storage" where
  \<comment> \<open>The three \<^verbatim>\<open>removeItem\<close> of the cleanup, \<open>key\<close> being a metadata key.\<close>
  "removeVersion key ls =
     (let ver = drop (length CACHE_META_PREFIX) key
      in map_delete key
           (map_delete (CACHE_PREFIX @ ''alias_'' @ ver) (map_delete (CACHE_PREFIX @ ver) ls)))"

fun limpiar :: "int \<Rightarrow> nat \<Rightarrow> storage \<Rightarrow> storage" where
  \<comment> \<open>The cleanup loop, \<open>i\<close> running from \<open>length - 1\<close> down to 0: \<open>limpiar ahora (i + 1) ls\<close>.\<close>
  "limpiar ahora 0 ls = ls"
| "limpiar ahora (Suc i) ls =
     (if i < length ls \<and> startsWith (fst (ls ! i)) CACHE_META_PREFIX then
        (case map_option parse_meta (map_of ls (fst (ls ! i))) of
           Some (Some oldMeta) \<Rightarrow>
             if ahora - meta_timestamp oldMeta > TTL_LIMPIEZA_MS
             then limpiar ahora i (removeVersion (fst (ls ! i)) ls)
             else limpiar ahora i ls
         | _ \<Rightarrow> limpiar ahora i ls)
      else limpiar ahora i ls)"

definition guardarEnCacheLocal :: "world \<Rightarrow> string \<Rightarrow> nat \<Rightarrow> nat \<Rightarrow> state \<Rightarrow> state" where
  "guardarEnCacheLocal w versionActual carpetas archivos st =
     (if versionActual = ''unknown'' then st
      else
        (case setItem w (CACHE_PREFIX @ versionActual) (SPares (imagenIndex st)) (localStorage st) of
           None \<Rightarrow> emitir (Warn EnGuardar) st
         | Some ls1 \<Rightarrow>
             (case setItem w (CACHE_PREFIX @ ''alias_'' @ versionActual) (SPares (aliasIndex st)) ls1 of
                None \<Rightarrow> emitir (Warn EnGuardar) (st \<lparr> localStorage := ls1 \<rparr>)
              | Some ls2 \<Rightarrow>
                  let (ts, st1) = date_now w (st \<lparr> localStorage := ls2 \<rparr>);
                      m = \<lparr> meta_timestamp = ts, meta_version = versionActual,
                            meta_carpetas = carpetas, meta_archivos = archivos \<rparr>
                  in (case setItem w (CACHE_META_PREFIX @ versionActual) (SMeta m) ls2 of
                        None \<Rightarrow> emitir (Warn EnGuardar) st1
                      | Some ls3 \<Rightarrow>
                          let (ahora, st2) = date_now w (st1 \<lparr> localStorage := ls3 \<rparr>)
                          in st2 \<lparr> localStorage := limpiar ahora (length ls3) ls3 \<rparr>))))"

fun fallback_loop :: "storage \<Rightarrow> string list \<Rightarrow> state \<Rightarrow> resultado option \<times> state" where
  \<comment> \<open>The loop of \<^verbatim>\<open>_cargarFallbackLocal\<close> over the keys of the store, which it does not change.\<close>
  "fallback_loop ls [] st = (None, st)"
| "fallback_loop ls (key # keys) st =
     (if \<not> startsWith key CACHE_PREFIX \<or> str_includes key ''_meta_'' \<or> str_includes key ''alias_''
      then fallback_loop ls keys st
      else
        let ver = drop (length CACHE_PREFIX) key;
            cachedIndex = map_of ls key;
            cachedAlias = map_of ls (CACHE_PREFIX @ ''alias_'' @ ver);
            cachedMeta = map_of ls (CACHE_META_PREFIX @ ver)
        in if truthy_item cachedIndex \<and> truthy_item cachedMeta then
             (case parse_meta (the cachedMeta) of
                None \<Rightarrow> (None, emitir (Warn EnFallback) st)
              | Some m \<Rightarrow>
                  (case parse_indice (the cachedIndex) of
                     None \<Rightarrow> (None, emitir (Warn EnFallback) st)
                   | Some idx \<Rightarrow>
                       let st1 = st \<lparr> imagenIndex := idx \<rparr> in
                       (case parse_alias cachedAlias of
                          None \<Rightarrow> (None, emitir (Warn EnFallback) st1)
                        | Some al \<Rightarrow>
                            (Some resultado_fallback,
                             st1 \<lparr> aliasIndex := al, driveTreeVersion := Some ver \<rparr>))))
           else fallback_loop ls keys st)"

definition cargarFallbackLocal :: "state \<Rightarrow> resultado option \<times> state" where
  "cargarFallbackLocal st = fallback_loop (localStorage st) (map fst (localStorage st)) st"

subsection \<open>Building and refreshing\<close>

definition o_bien :: "string option \<Rightarrow> string option \<Rightarrow> string option" where
  \<comment> \<open>\<^verbatim>\<open>a || b\<close> on string-valued fields\<close>
  "o_bien a b = (if truthy a then a else b)"

definition obtener_version :: "world \<Rightarrow> state \<Rightarrow> string \<times> state" where
  \<comment> \<open>The inner \<^verbatim>\<open>try\<close> of \<^verbatim>\<open>construirIndiceImagenes\<close>: the value of \<^verbatim>\<open>versionActual\<close>.\<close>
  "obtener_version w st =
     (let (res, st1) = fetch_version w st
      in case res of
           Ok d \<Rightarrow>
             (let v = o_bien (vp_version d) (vp_lastModified d)
              in (if truthy v then the v else ''unknown'', st1))
         | NotOk \<Rightarrow> (''unknown'', st1)
         | Throws \<Rightarrow> (''unknown'', emitir (Warn EnVersion) st1))"

definition descargar_e_instalar :: "world \<Rightarrow> string \<Rightarrow> state \<Rightarrow> resultado \<times> state" where
  \<comment> \<open>\<^verbatim>\<open>construirIndiceImagenes\<close> from the call of \<^verbatim>\<open>_descargarYConstruirIndice\<close> on, with the
      outer \<^verbatim>\<open>catch\<close>.\<close>
  "descargar_e_instalar w versionActual st =
     (let (res, st1) = fetch_tree w st
      in case res of
           Ok d \<Rightarrow>
             (let b = construir_desde d;
                  st2 = st1 \<lparr> imagenIndex := nuevoIndice b, aliasIndex := nuevoAlias b,
                              driveTreeVersion := Some versionActual \<rparr>;
                  st3 = guardarEnCacheLocal w versionActual (totalCarpetas b) (totalArchivos b) st2
              in (\<lparr> success = True, fromCache = Some False, isFallback = None,
                     stats = Some (totalCarpetas b, totalArchivos b), fallo = None \<rparr>, st3))
         | _ \<Rightarrow>
             (let (fb, st2) = cargarFallbackLocal (emitir (Warn EnConstruir) st1)
              in case fb of
                   Some r \<Rightarrow> (r, st2)
                 | None \<Rightarrow>
                     (\<lparr> success = False, fromCache = None, isFallback = None, stats = None,
                         fallo = Some EnConstruir \<rparr>, st2)))"

definition construirIndiceImagenes :: "world \<Rightarrow> bool \<Rightarrow> state \<Rightarrow> resultado \<times> state" where
  "construirIndiceImagenes w forzarRecarga st =
     (let (versionActual, st1) = obtener_version w (emitir (Construir forzarRecarga) st)
      in if \<not> forzarRecarga \<and> driveTreeVersion st1 = Some versionActual \<and> imagenIndex st1 \<noteq> []
         then (resultado_cache, st1)
         else
           let (cached, st2) =
                 (if \<not> forzarRecarga \<and> versionActual \<noteq> ''unknown''
                  then cargarDesdeCacheLocal w versionActual st1 else (None, st1))
           in case cached of
                Some r \<Rightarrow> (r, st2)
              | None \<Rightarrow> descargar_e_instalar w versionActual st2)"

definition verificarActualizacionIndice :: "world \<Rightarrow> state \<Rightarrow> (bool \<times> string option) \<times> state" where
  \<comment> \<open>The pair is \<^verbatim>\<open>necesitaActualizar\<close> and \<^verbatim>\<open>nuevaVersion\<close>.\<close>
  "verificarActualizacionIndice w st =
     (let (res, st1) = fetch_version w st
      in case res of
           Ok d \<Rightarrow>
             (let nuevaVersion = o_bien (vp_version d) (vp_lastModified d)
              in if truthy nuevaVersion \<and> nuevaVersion \<noteq> driveTreeVersion st1
                 then ((True, nuevaVersion), st1) else ((False, None), st1))
         | _ \<Rightarrow> ((False, None), st1))"

subsection \<open>Looking a key up\<close>

fun parcial_loop ::
  "string \<Rightarrow> indice \<Rightarrow> nat option \<times> string option \<times> valor option
     \<Rightarrow> nat option \<times> string option \<times> valor option" where
  \<comment> \<open>The loop of \<^verbatim>\<open>_busquedaParcial\<close> on \<^verbatim>\<open>mejorScore\<close> (\<open>None\<close> is \<^verbatim>\<open>Infinity\<close>),
      \<^verbatim>\<open>mejorCarpeta\<close> and \<^verbatim>\<open>mejorArchivos\<close>.\<close>
  "parcial_loop claveNorm [] mejor = mejor"
| "parcial_loop claveNorm ((carpeta, archivos) # resto) (mejorScore, mejorCarpeta, mejorArchivos) =
     (if str_includes carpeta claveNorm \<or> str_includes claveNorm carpeta then
        (let score = nat \<bar>int (length carpeta) - int (length claveNorm)\<bar>
         in if (case mejorScore of None \<Rightarrow> True | Some m \<Rightarrow> score < m) then
              (if score = 0 then (Some score, Some carpeta, Some archivos)
               else parcial_loop claveNorm resto (Some score, Some carpeta, Some archivos))
            else parcial_loop claveNorm resto (mejorScore, mejorCarpeta, mejorArchivos))
      else parcial_loop claveNorm resto (mejorScore, mejorCarpeta, mejorArchivos))"

definition busquedaParcial :: "string \<Rightarrow> state \<Rightarrow> string list option \<times> state" where
  \<comment> \<open>The list returned, or \<open>None\<close> when \<^verbatim>\<open>mejorArchivos.map\<close> raises.\<close>
  "busquedaParcial claveNorm st =
     (case parcial_loop claveNorm (imagenIndex st) (None, None, None) of
        (mejorScore, mejorCarpeta, None) \<Rightarrow> (Some [], st)
      | (mejorScore, mejorCarpeta, Some mejorArchivos) \<Rightarrow>
          if falsy_valor mejorArchivos then (Some [], st)
          else (urls_de mejorArchivos, emitir (LogParcial (the mejorCarpeta)) st))"

definition buscarImagenesLocales :: "world \<Rightarrow> string \<Rightarrow> state \<Rightarrow> string list \<times> state" where
  "buscarImagenesLocales w clave st =
     (let (res, st1) = fetch_local w clave st
      in case res of
           Ok imgs \<Rightarrow> (if length imgs > 0 then imgs else [], st1)
         | _ \<Rightarrow> ([], st1))"

definition exacta :: "indice \<Rightarrow> string \<Rightarrow> valor option" where
  \<comment> \<open>\<^verbatim>\<open>imagenIndex.get(k)\<close> under the test \<^verbatim>\<open>?.length\<close>: a value found, of length above 0.\<close>
  "exacta idx k = (case map_of idx k of Some v \<Rightarrow> if largo v > 0 then Some v else None | None \<Rightarrow> None)"

definition desde_alias :: "state \<Rightarrow> string \<Rightarrow> valor option" where
  \<comment> \<open>Step 2 of \<^verbatim>\<open>findImageUrls\<close>: \<^verbatim>\<open>aliasIndex.get\<close>, then \<^verbatim>\<open>imagenIndex.get\<close>. An array
      found in the aliases is truthy and is no key of the index (its keys are strings).\<close>
  "desde_alias st k =
     (case map_of (aliasIndex st) k of
        Some (Texto porAlias) \<Rightarrow> if porAlias \<noteq> [] then exacta (imagenIndex st) porAlias else None
      | Some (Archivos porAlias) \<Rightarrow> None
      | None \<Rightarrow> None)"

definition findImageUrls_try :: "world \<Rightarrow> string \<Rightarrow> state \<Rightarrow> string list option \<times> state" where
  \<comment> \<open>The \<^verbatim>\<open>try\<close> block of \<^verbatim>\<open>findImageUrls\<close>: the list it returns, or \<open>None\<close> when it raises,
      and the state at that point.\<close>
  "findImageUrls_try w claveOriginal st =
     (let claveNorm = toLowerCase (trim claveOriginal)
      in if claveNorm = [] then (let (imgs, s) = buscarImagenesLocales w [] st in (Some imgs, s))
         else
           let (listo, st1) =
                 (if imagenIndex st = []
                  then (let (r, s) = construirIndiceImagenes w False st in (success r, s))
                  else (True, st))
           in if \<not> listo
              then (let (imgs, s) = buscarImagenesLocales w claveNorm st1 in (Some imgs, s))
              else
                (case exacta (imagenIndex st1) claveNorm of
                   Some exacto \<Rightarrow> (urls_de exacto, emitir (LogExacta (largo exacto)) st1)
                 | None \<Rightarrow>
                     (case desde_alias st1 claveNorm of
                        Some desde \<Rightarrow> (urls_de desde, emitir (LogAlias (largo desde)) st1)
                      | None \<Rightarrow>
                          let (parcial, st2) = busquedaParcial claveNorm st1
                          in case parcial of
                               None \<Rightarrow> (None, st2)
                             | Some p \<Rightarrow>
                                 if p \<noteq> [] then (Some p, st2)
                                 else
                                   let (actualizacion, st3) = verificarActualizacionIndice w st2
                                   in if fst actualizacion then
                                        (let (r, st4) = construirIndiceImagenes w True st3
                                         in case exacta (imagenIndex st4) claveNorm of
                                              Some reintento \<Rightarrow> (urls_de reintento, st4)
                                            | None \<Rightarrow>
                                                (let (imgs, s) = buscarImagenesLocales w claveNorm st4
                                                 in (Some imgs, s)))
                                      else
                                        (let (imgs, s) = buscarImagenesLocales w claveNorm st3
                                         in (Some imgs, s)))))"

definition findImageUrls :: "world \<Rightarrow> string \<Rightarrow> state \<Rightarrow> string list \<times> state" where
  \<comment> \<open>The \<^verbatim>\<open>try\<close> block and its \<^verbatim>\<open>catch\<close>, which logs the error and asks the local endpoint.\<close>
  "findImageUrls w claveOriginal st =
     (case findImageUrls_try w claveOriginal st of
        (Some urls, st1) \<Rightarrow> (urls, st1)
      | (None, st1) \<Rightarrow>
          buscarImagenesLocales w (toLowerCase (trim claveOriginal)) (emitir (Warn EnBusqueda) st1))"

text \<open>
  The key given to \<^verbatim>\<open>findImageUrls\<close> is a string, as its caller documents, so
  \<^verbatim>\<open>trim\<close> does not raise. A \<^verbatim>\<open>fetch\<close>, the parsing of a stored text and \<^verbatim>\<open>setItem\<close> can
  raise: each stands in a \<^verbatim>\<open>try\<close> of the function it belongs to, and its failure is a
  branch of the definitions above. In \<^verbatim>\<open>findImageUrls\<close> itself, \<^verbatim>\<open>.map\<close> raises on a value
  that is a string, which an index read back from the store can hold; the \<^verbatim>\<open>catch\<close> of
  \<^verbatim>\<open>findImageUrls\<close> takes it.
\<close>

subsection \<open>Notions used in the statements\<close>

definition coincide :: "string \<Rightarrow> string \<Rightarrow> bool" where
  \<comment> \<open>The test of the partial search on a stored key.\<close>
  "coincide claveNorm carpeta \<longleftrightarrow> str_includes carpeta claveNorm \<or> str_includes claveNorm carpeta"

definition distancia :: "string \<Rightarrow> string \<Rightarrow> nat" where
  \<comment> \<open>\<^verbatim>\<open>Math.abs(carpeta.length - claveNorm.length)\<close>\<close>
  "distancia claveNorm carpeta = nat \<bar>int (length carpeta) - int (length claveNorm)\<bar>"

definition resultado_parcial :: "valor \<Rightarrow> string list option" where
  \<comment> \<open>What \<^verbatim>\<open>_busquedaParcial\<close> makes of the value of the best key: nothing of the empty
      string, the URLs of an array; on another string \<^verbatim>\<open>.map\<close> raises (\<open>None\<close>).\<close>
  "resultado_parcial v = (if falsy_valor v then Some [] else urls_de v)"

definition archivos_validos :: "carpeta \<Rightarrow> imagen list" where
  \<comment> \<open>The entries that the loop over the files of a folder pushes, in their order.\<close>
  "archivos_validos c =
     (case carpeta_children c of None \<Rightarrow> [] | Some items \<Rightarrow> List.map_filter archivo_de items)"

definition carpetas_de :: "driveData \<Rightarrow> carpeta list" where
  \<comment> \<open>The folders of the tree in the order in which the two nested loops reach them.\<close>
  "carpetas_de d =
     concat (map (\<lambda>nodo. case nodo_children nodo of Some cs \<Rightarrow> cs | None \<Rightarrow> [])
               (case structure_children d of Some ns \<Rightarrow> ns | None \<Rightarrow> []))"

definition construccion_ok :: "construccion \<Rightarrow> bool" where
  \<comment> \<open>The index holds arrays, none empty, under keys that are not empty; an alias is not
      empty and leads to a key of the index.\<close>
  "construccion_ok b \<longleftrightarrow>
     (\<forall>k v. map_of (nuevoIndice b) k = Some v \<longrightarrow>
        k \<noteq> [] \<and> (case v of Archivos a \<Rightarrow> a \<noteq> [] | Texto t \<Rightarrow> False)) \<and>
     (\<forall>a v. map_of (nuevoAlias b) a = Some v \<longrightarrow>
        a \<noteq> [] \<and> (case v of Texto k \<Rightarrow> map_of (nuevoIndice b) k \<noteq> None | Archivos x \<Rightarrow> False))"

definition candidata :: "storage \<Rightarrow> string \<Rightarrow> bool" where
  \<comment> \<open>The tests of \<^verbatim>\<open>_cargarFallbackLocal\<close> on a key of the store: a key that passes them is loaded.\<close>
  "candidata ls key \<longleftrightarrow>
     startsWith key CACHE_PREFIX \<and> \<not> str_includes key ''_meta_'' \<and> \<not> str_includes key ''alias_'' \<and>
     truthy_item (map_of ls key) \<and>
     truthy_item (map_of ls (CACHE_META_PREFIX @ drop (length CACHE_PREFIX) key))"

definition forzadas :: "state \<Rightarrow> nat" where
  \<comment> \<open>How many times \<^verbatim>\<open>construirIndiceImagenes(true)\<close> has been entered.\<close>
  "forzadas st = count_list (traza st) (Construir True)"

subsection \<open>The text of a stored value\<close>

text \<open>
  The source never measures what it stores. The length of the text that \<^verbatim>\<open>JSON.stringify\<close>
  gives is defined here to state what the save does with a large index.
\<close>

fun digitos :: "nat \<Rightarrow> string" where
  \<comment> \<open>The decimal digits of a number.\<close>
  "digitos n = (if n < 10 then [char_of (48 + n)] else digitos (n div 10) @ [char_of (48 + n mod 10)])"

declare digitos.simps [simp del]

definition json_int :: "int \<Rightarrow> string" where
  "json_int i = (if i < 0 then CHR ''-'' # digitos (nat (- i)) else digitos (nat i))"

definition hex_digit :: "nat \<Rightarrow> char" where
  "hex_digit n = (if n < 10 then char_of (48 + n) else char_of (87 + n))"

definition json_escape :: "char \<Rightarrow> string" where
  \<comment> \<open>The characters that \<^verbatim>\<open>JSON.stringify\<close> escapes in a string.\<close>
  "json_escape c =
     (if c = CHR 0x22 then [CHR 0x5C, CHR 0x22]
      else if c = CHR 0x5C then [CHR 0x5C, CHR 0x5C]
      else if c = CHR 0x08 then [CHR 0x5C, CHR ''b'']
      else if c = CHR 0x09 then [CHR 0x5C, CHR ''t'']
      else if c = CHR 0x0A then [CHR 0x5C, CHR ''n'']
      else if c = CHR 0x0C then [CHR 0x5C, CHR ''f'']
      else if c = CHR 0x0D then [CHR 0x5C, CHR ''r'']
      else if (of_char c :: nat) < 32
        then [CHR 0x5C, CHR ''u'', CHR ''0'', CHR ''0'',
              hex_digit ((of_char c :: nat) div 16), hex_digit ((of_char c :: nat) mod 16)]
      else [c])"

definition json_string :: "string \<Rightarrow> string" where
  "json_string s = CHR 0x22 # concat (map json_escape s) @ [CHR 0x22]"

fun join_coma :: "string list \<Rightarrow> string" where
  "join_coma [] = []"
| "join_coma [x] = x"
| "join_coma (x # y # r) = x @ CHR '','' # join_coma (y # r)"

definition json_array :: "string list \<Rightarrow> string" where
  "json_array xs = CHR ''['' # join_coma xs @ [CHR '']'']"

definition json_campo :: "string \<Rightarrow> string \<Rightarrow> string" where
  "json_campo nombre valor = json_string nombre @ CHR '':'' # valor"

definition json_imagen :: "imagen \<Rightarrow> string" where
  \<comment> \<open>A property whose value is \<^verbatim>\<open>undefined\<close> is left out.\<close>
  "json_imagen img =
     CHR ''{'' #
     join_coma
       ((case img_name img of None \<Rightarrow> [] | Some n \<Rightarrow> [json_campo ''name'' (json_string n)]) @
        [json_campo ''url'' (json_string (img_url img))] @
        (case img_size img of None \<Rightarrow> [] | Some z \<Rightarrow> [json_campo ''size'' (json_int z)]))
     @ [CHR ''}'']"

definition json_valor :: "valor \<Rightarrow> string" where
  "json_valor v = (case v of Archivos a \<Rightarrow> json_array (map json_imagen a) | Texto s \<Rightarrow> json_string s)"

definition json_texto :: "stored \<Rightarrow> string" where
  \<comment> \<open>The text that \<^verbatim>\<open>JSON.stringify\<close> gives for a stored value.\<close>
  "json_texto v =
     (case v of
        SPares m \<Rightarrow> json_array (map (\<lambda>(k, x). json_array [json_string k, json_valor x]) m)
      | SMeta m \<Rightarrow>
          CHR ''{'' #
          join_coma
            [json_campo ''timestamp'' (json_int (meta_timestamp m)),
             json_campo ''version'' (json_string (meta_version m)),
             json_campo ''carpetas'' (digitos (meta_carpetas m)),
             json_campo ''archivos'' (digitos (meta_archivos m))]
          @ [CHR ''}'']
      | SOtro s \<Rightarrow> s)"

subsection \<open>Trees, worlds and states of the scenarios\<close>

definition imagen_de :: "string \<Rightarrow> imagen" where
  \<comment> \<open>An entry with a URL only.\<close>
  "imagen_de u = \<lparr> img_name = None, img_url = u, img_size = None \<rparr>"

definition estado_con :: "indice \<Rightarrow> alias_indice \<Rightarrow> state" where
  \<comment> \<open>The variables of the module holding the given index and aliases, an empty store, nothing done yet.\<close>
  "estado_con idx al =
     \<lparr> imagenIndex = idx, aliasIndex = al, driveTreeVersion = None, localStorage = [], traza = [] \<rparr>"

definition mundo_sin_red :: world where
  \<comment> \<open>Every request fails; the store takes every write.\<close>
  "mundo_sin_red =
     \<lparr> version_resp = (\<lambda>n. Throws), tree_resp = (\<lambda>n. Throws), local_resp = (\<lambda>n c. Throws),
       clock = (\<lambda>n. 0), quota_ok = (\<lambda>ls k v. True) \<rparr>"

definition estado_C :: state where
  \<comment> \<open>Scenario C: one folder, whose key contains the query.\<close>
  "estado_C = estado_con [(''i-01-002-03x'', Archivos [imagen_de ''u1'', imagen_de ''u2''])] []"

definition archivo_simple :: "string \<Rightarrow> item" where
  \<comment> \<open>A file with its identifier only: its URL is made by \<^verbatim>\<open>_driveUrl\<close>.\<close>
  "archivo_simple fileId =
     \<lparr> item_i = Some fileId, item_id = None, item_n = None, item_name = None, item_s = None,
       item_size = None, item_mediumUrl = None, item_thumbnailUrl = None, item_directUrl = None \<rparr>"

definition carpeta_simple ::
  "string option \<Rightarrow> string option \<Rightarrow> string option \<Rightarrow> string list \<Rightarrow> carpeta" where
  "carpeta_simple k nombre alias fileIds =
     \<lparr> carpeta_k = k, carpeta_name = nombre, carpeta_alias = alias,
       carpeta_children = Some (map archivo_simple fileIds) \<rparr>"

definition arbol_simple :: "carpeta list \<Rightarrow> driveData" where
  "arbol_simple cs = \<lparr> structure_children = Some [\<lparr> nodo_children = Some cs \<rparr>] \<rparr>"

definition estado_vacio :: state where
  \<comment> \<open>The module as loaded: no index, no version, an empty store.\<close>
  "estado_vacio = estado_con [] []"

definition mundo_estable :: "driveData \<Rightarrow> world" where
  \<comment> \<open>The server answers every request: version \<^verbatim>\<open>v1\<close>, the given tree, no local image.\<close>
  "mundo_estable d =
     \<lparr> version_resp = (\<lambda>n. Ok \<lparr> vp_version = Some ''v1'', vp_lastModified = None \<rparr>),
       tree_resp = (\<lambda>n. Ok d), local_resp = (\<lambda>n c. Ok []),
       clock = (\<lambda>n. 0), quota_ok = (\<lambda>ls k v. True) \<rparr>"

definition carpeta_AB :: carpeta where
  \<comment> \<open>Scenarios A and B: a folder with a key, an alias and two files.\<close>
  "carpeta_AB = carpeta_simple (Some ''i-01-002-03'') None (Some ''Plaza Centro'') [''f1'', ''f2'']"

definition arbol_AB :: driveData where
  "arbol_AB = arbol_simple [carpeta_AB]"

definition arbol_mayusculas :: driveData where
  \<comment> \<open>A key that the server sends in upper case.\<close>
  "arbol_mayusculas = arbol_simple [carpeta_simple (Some ''I-01-002-03'') None None [''f1'']]"

definition arbol_alias_espacio :: driveData where
  \<comment> \<open>An alias with a space at its end.\<close>
  "arbol_alias_espacio =
     arbol_simple [carpeta_simple (Some ''i-01-002-03'') None (Some ''Plaza Centro '') [''f1'']]"

definition arbol_nombre_libre :: driveData where
  \<comment> \<open>A folder of the old format: no key, a free name.\<close>
  "arbol_nombre_libre = arbol_simple [carpeta_simple None (Some ''Plaza Centro'') None [''f1'']]"

definition carpeta_en_blanco :: carpeta where
  \<comment> \<open>A folder of the old format whose name is blank.\<close>
  "carpeta_en_blanco = carpeta_simple None (Some ''  '') (Some ''Fotos'') [''f1'']"

definition carpeta_sin_archivos :: carpeta where
  \<comment> \<open>A folder of the old format with a free name, whose only file has no identifier.\<close>
  "carpeta_sin_archivos =
     \<lparr> carpeta_k = None, carpeta_name = Some ''Plaza Centro'', carpeta_alias = Some ''Centro'',
       carpeta_children = Some [archivo_simple ''f1'' \<lparr> item_i := None \<rparr>] \<rparr>"

definition mundo_a_las :: "int \<Rightarrow> world" where
  \<comment> \<open>No network, and the clock at the given time.\<close>
  "mundo_a_las t = mundo_sin_red \<lparr> clock := (\<lambda>n. t) \<rparr>"

definition estado_guardado :: state where
  \<comment> \<open>After a first build in \<open>mundo_estable arbol_AB\<close>: index in memory and in the store, saved at time 0.\<close>
  "estado_guardado = snd (construirIndiceImagenes (mundo_estable arbol_AB) False estado_vacio)"

definition estado_recargado :: state where
  \<comment> \<open>The page loaded again: the variables are as at the start, the store is kept.\<close>
  "estado_recargado = estado_vacio \<lparr> localStorage := localStorage estado_guardado \<rparr>"

definition mundo_token :: "string \<Rightarrow> world" where
  \<comment> \<open>The server answers with the given version token; the tree is served once.\<close>
  "mundo_token v =
     \<lparr> version_resp = (\<lambda>n. Ok \<lparr> vp_version = Some v, vp_lastModified = None \<rparr>),
       tree_resp = (\<lambda>n. if n = 0 then Ok arbol_AB else Throws), local_resp = (\<lambda>n c. Ok []),
       clock = (\<lambda>n. 0), quota_ok = (\<lambda>ls k v. True) \<rparr>"

definition estado_token :: "string \<Rightarrow> state" where
  \<comment> \<open>After a first build under the given version token.\<close>
  "estado_token v = snd (construirIndiceImagenes (mundo_token v) False estado_vacio)"

definition mundo_dos_versiones :: world where
  \<comment> \<open>The server is at the version \<^verbatim>\<open>X\<close>, then at the version \<^verbatim>\<open>alias_X\<close>.\<close>
  "mundo_dos_versiones =
     \<lparr> version_resp =
         (\<lambda>n. Ok \<lparr> vp_version = Some (if n = 0 then ''X'' else ''alias_X''), vp_lastModified = None \<rparr>),
       tree_resp = (\<lambda>n. Ok arbol_AB), local_resp = (\<lambda>n c. Ok []),
       clock = (\<lambda>n. 0), quota_ok = (\<lambda>ls k v. True) \<rparr>"

definition estado_dos_versiones :: state where
  \<comment> \<open>After a build under each of the two versions.\<close>
  "estado_dos_versiones =
     snd (construirIndiceImagenes mundo_dos_versiones True
            (snd (construirIndiceImagenes mundo_dos_versiones False estado_vacio)))"

definition mundo_ida_y_vuelta :: world where
  \<comment> \<open>The server is at the version \<^verbatim>\<open>X\<close>, then at \<^verbatim>\<open>alias_X\<close>, then at \<^verbatim>\<open>X\<close> again.\<close>
  "mundo_ida_y_vuelta =
     \<lparr> version_resp =
         (\<lambda>n. Ok \<lparr> vp_version = Some (if n = 1 then ''alias_X'' else ''X''), vp_lastModified = None \<rparr>),
       tree_resp = (\<lambda>n. Ok arbol_AB), local_resp = (\<lambda>n c. Ok []),
       clock = (\<lambda>n. 0), quota_ok = (\<lambda>ls k v. True) \<rparr>"

definition estado_ida_y_vuelta :: state where
  \<comment> \<open>The page loaded again after a build under each of the three versions in turn: the
      variables are as at the start, the store is kept.\<close>
  "estado_ida_y_vuelta =
     estado_vacio
       \<lparr> localStorage :=
           localStorage
             (snd (construirIndiceImagenes mundo_ida_y_vuelta True
                (snd (construirIndiceImagenes mundo_ida_y_vuelta True
                   (snd (construirIndiceImagenes mundo_ida_y_vuelta False estado_vacio)))))) \<rparr>"

definition mundo_lleno :: "driveData \<Rightarrow> world" where
  \<comment> \<open>As \<open>mundo_estable\<close>, with a store that lets no write through.\<close>
  "mundo_lleno d = mundo_estable d \<lparr> quota_ok := (\<lambda>ls k v. False) \<rparr>"

definition mundo_sin_sitio_meta :: "driveData \<Rightarrow> world" where
  \<comment> \<open>As \<open>mundo_estable\<close>, with a store that has no room left for a metadata record.\<close>
  "mundo_sin_sitio_meta d =
     mundo_estable d \<lparr> quota_ok := (\<lambda>ls k v. \<not> startsWith k CACHE_META_PREFIX) \<rparr>"

definition mundo_sin_version :: "driveData \<Rightarrow> world" where
  \<comment> \<open>As \<open>mundo_estable\<close>, with a version endpoint that cannot be reached.\<close>
  "mundo_sin_version d = mundo_estable d \<lparr> version_resp := (\<lambda>n. Throws) \<rparr>"

definition arbol_grande :: driveData where
  \<comment> \<open>One folder with one file, whose URL has five million characters.\<close>
  "arbol_grande =
     arbol_simple
       [\<lparr> carpeta_k = Some ''i-01-002-03'', carpeta_name = None, carpeta_alias = None,
          carpeta_children =
            Some [archivo_simple ''f1'' \<lparr> item_mediumUrl := Some (replicate 5000000 CHR ''a'') \<rparr>] \<rparr>]"

definition arbol_D :: driveData where
  \<comment> \<open>Scenario D: the tree has one more folder.\<close>
  "arbol_D = arbol_simple [carpeta_AB, carpeta_simple (Some ''i-09-001-01'') None None [''f9'']]"

definition mundo_D :: world where
  \<comment> \<open>The server has a new version of the tree, with one more folder.\<close>
  "mundo_D =
     \<lparr> version_resp = (\<lambda>n. Ok \<lparr> vp_version = Some ''v2'', vp_lastModified = None \<rparr>),
       tree_resp = (\<lambda>n. Ok arbol_D), local_resp = (\<lambda>n c. Ok []),
       clock = (\<lambda>n. 0), quota_ok = (\<lambda>ls k v. True) \<rparr>"

section \<open>Properties\<close>

lemma map_of_map_set: "map_of (map_set k v m) = (map_of m)(k \<mapsto> v)"
  by (induction m) auto

subsection \<open>The partial search\<close>

lemma startsWith_iff: "startsWith s t \<longleftrightarrow> (\<exists>post. s = t @ post)"
  unfolding startsWith_def
  by (metis append_eq_conv_conj append_take_drop_id)

lemma str_includes_iff: "str_includes s t \<longleftrightarrow> (\<exists>pre post. s = pre @ t @ post)"
proof (induction s)
  case Nil
  then show ?case by simp
next
  case (Cons c cs)
  show ?case
  proof
    assume "str_includes (c # cs) t"
    then consider "startsWith (c # cs) t" | "str_includes cs t" by auto
    then show "\<exists>pre post. c # cs = pre @ t @ post"
    proof cases
      case 1
      then obtain post where "c # cs = t @ post" by (auto simp: startsWith_iff)
      then have "c # cs = [] @ t @ post" by simp
      then show ?thesis by blast
    next
      case 2
      then obtain pre post where "cs = pre @ t @ post" using Cons.IH by auto
      then have "c # cs = (c # pre) @ t @ post" by simp
      then show ?thesis by blast
    qed
  next
    assume "\<exists>pre post. c # cs = pre @ t @ post"
    then obtain pre post where e: "c # cs = pre @ t @ post" by blast
    show "str_includes (c # cs) t"
    proof (cases pre)
      case Nil
      then have "startsWith (c # cs) t" using e by (auto simp: startsWith_iff)
      then show ?thesis by simp
    next
      case (Cons p ps)
      then have "cs = ps @ t @ post" using e by simp
      then have "str_includes cs t" using Cons.IH by blast
      then show ?thesis by simp
    qed
  qed
qed

lemma parcial_loop_Cons:
  "parcial_loop q ((c, a) # resto) (ms, mc, ma) =
     (if coincide q c then
        (if (case ms of None \<Rightarrow> True | Some m \<Rightarrow> distancia q c < m) then
           (if distancia q c = 0 then (Some (distancia q c), Some c, Some a)
            else parcial_loop q resto (Some (distancia q c), Some c, Some a))
         else parcial_loop q resto (ms, mc, ma))
      else parcial_loop q resto (ms, mc, ma))"
  by (cases ms) (simp_all add: coincide_def distancia_def Let_def)

lemma parcial_loop_sin_mejora:
  "\<forall>(c, a) \<in> set idx. coincide q c \<longrightarrow> m \<le> distancia q c \<Longrightarrow>
   parcial_loop q idx (Some m, mc, ma) = (Some m, mc, ma)"
  by (induction idx) (auto simp: parcial_loop_Cons simp del: parcial_loop.simps(2))

lemma parcial_loop_sin_candidato:
  "\<forall>(c, a) \<in> set idx. \<not> coincide q c \<Longrightarrow> parcial_loop q idx (ms, mc, ma) = (ms, mc, ma)"
  by (induction idx) (auto simp: parcial_loop_Cons simp del: parcial_loop.simps(2))

lemma parcial_loop_primero_minimo:
  assumes "coincide q c"
    and "\<forall>(c', a') \<in> set pre. coincide q c' \<longrightarrow> distancia q c < distancia q c'"
    and "\<forall>(c', a') \<in> set post. coincide q c' \<longrightarrow> distancia q c \<le> distancia q c'"
    and "case ms of None \<Rightarrow> True | Some m \<Rightarrow> distancia q c < m"
  shows "parcial_loop q (pre @ (c, a) # post) (ms, mc, ma) = (Some (distancia q c), Some c, Some a)"
  using assms
proof (induction pre arbitrary: ms mc ma)
  case Nil
  then show ?case
    using parcial_loop_sin_mejora [of post q "distancia q c" "Some c" "Some a"]
    by (simp add: parcial_loop_Cons del: parcial_loop.simps(2))
next
  case (Cons x pre)
  obtain c0 a0 where x: "x = (c0, a0)" by (cases x)
  show ?case
  proof (cases "coincide q c0")
    case False
    then have "parcial_loop q ((x # pre) @ (c, a) # post) (ms, mc, ma)
             = parcial_loop q (pre @ (c, a) # post) (ms, mc, ma)"
      by (simp add: x parcial_loop_Cons del: parcial_loop.simps(2))
    then show ?thesis using Cons by simp
  next
    case True
    then have lt: "distancia q c < distancia q c0" using Cons.prems(2) x by simp
    then have nz: "distancia q c0 \<noteq> 0" by simp
    show ?thesis
    proof (cases "case ms of None \<Rightarrow> True | Some m \<Rightarrow> distancia q c0 < m")
      case True
      with \<open>coincide q c0\<close> nz
      have "parcial_loop q ((x # pre) @ (c, a) # post) (ms, mc, ma)
             = parcial_loop q (pre @ (c, a) # post) (Some (distancia q c0), Some c0, Some a0)"
        by (simp add: x parcial_loop_Cons del: parcial_loop.simps(2))
      moreover have "parcial_loop q (pre @ (c, a) # post) (Some (distancia q c0), Some c0, Some a0)
             = (Some (distancia q c), Some c, Some a)"
        using Cons.IH [of "Some (distancia q c0)"] Cons.prems lt by simp
      ultimately show ?thesis by simp
    next
      case False
      with \<open>coincide q c0\<close>
      have "parcial_loop q ((x # pre) @ (c, a) # post) (ms, mc, ma)
             = parcial_loop q (pre @ (c, a) # post) (ms, mc, ma)"
        by (simp add: x parcial_loop_Cons del: parcial_loop.simps(2))
      then show ?thesis using Cons by simp
    qed
  qed
qed

lemma existe_primero_minimo:
  "\<exists>(c, a) \<in> set idx. coincide q c \<Longrightarrow>
   \<exists>pre c a post. idx = pre @ (c, a) # post \<and> coincide q c \<and>
     (\<forall>(c', a') \<in> set pre. coincide q c' \<longrightarrow> distancia q c < distancia q c') \<and>
     (\<forall>(c', a') \<in> set post. coincide q c' \<longrightarrow> distancia q c \<le> distancia q c')"
proof (induction idx)
  case Nil
  then show ?case by simp
next
  case (Cons x xs)
  obtain c0 a0 where x: "x = (c0, a0)" by (cases x)
  show ?case
  proof (cases "\<exists>(c, a) \<in> set xs. coincide q c")
    case False
    then have "coincide q c0" using Cons.prems x by auto
    with False have "x # xs = [] @ (c0, a0) # xs \<and> coincide q c0 \<and>
       (\<forall>(c', a') \<in> set []. coincide q c' \<longrightarrow> distancia q c0 < distancia q c') \<and>
       (\<forall>(c', a') \<in> set xs. coincide q c' \<longrightarrow> distancia q c0 \<le> distancia q c')"
      using x by auto
    then show ?thesis by blast
  next
    case True
    then obtain pre c a post where d: "xs = pre @ (c, a) # post" "coincide q c"
       "\<forall>(c', a') \<in> set pre. coincide q c' \<longrightarrow> distancia q c < distancia q c'"
       "\<forall>(c', a') \<in> set post. coincide q c' \<longrightarrow> distancia q c \<le> distancia q c'"
      using Cons.IH by blast
    show ?thesis
    proof (cases "coincide q c0 \<and> distancia q c0 \<le> distancia q c")
      case True
      have "\<forall>(c', a') \<in> set xs. coincide q c' \<longrightarrow> distancia q c0 \<le> distancia q c'"
        using d True by (auto simp: less_imp_le dest!: bspec) 
      with True have "x # xs = [] @ (c0, a0) # xs \<and> coincide q c0 \<and>
       (\<forall>(c', a') \<in> set []. coincide q c' \<longrightarrow> distancia q c0 < distancia q c') \<and>
       (\<forall>(c', a') \<in> set xs. coincide q c' \<longrightarrow> distancia q c0 \<le> distancia q c')"
        using x by auto
      then show ?thesis by blast
    next
      case False
      then have "x # xs = (x # pre) @ (c, a) # post \<and> coincide q c \<and>
       (\<forall>(c', a') \<in> set (x # pre). coincide q c' \<longrightarrow> distancia q c < distancia q c') \<and>
       (\<forall>(c', a') \<in> set post. coincide q c' \<longrightarrow> distancia q c \<le> distancia q c')"
        using d x by auto
      then show ?thesis by blast
    qed
  qed
qed

lemma busquedaParcial_fst:
  "fst (busquedaParcial q st) =
     (case snd (snd (parcial_loop q (imagenIndex st) (None, None, None))) of
        None \<Rightarrow> Some [] | Some v \<Rightarrow> resultado_parcial v)"
  by (simp add: busquedaParcial_def resultado_parcial_def split: prod.splits option.splits)

lemma resultado_parcial_Archivos: "resultado_parcial (Archivos a) = Some (map img_url a)"
  by (simp add: resultado_parcial_def falsy_valor_def urls_de_def)

text \<open>
  C10. When several stored keys pass the test with the same least difference of lengths,
  the partial search returns the URLs of the one that comes first in the order of the
  index: a later folder replaces the best one only when its difference is strictly less.
\<close>

theorem busquedaParcial_primer_empate:
  assumes "imagenIndex st = pre @ (c, v) # post"
    and "coincide q c"
    and "\<forall>(c', a') \<in> set pre. coincide q c' \<longrightarrow> distancia q c < distancia q c'"
    and "\<forall>(c', a') \<in> set post. coincide q c' \<longrightarrow> distancia q c \<le> distancia q c'"
  shows "fst (busquedaParcial q st) = resultado_parcial v \<and>
         (\<forall>a. v = Archivos a \<longrightarrow> fst (busquedaParcial q st) = Some (map img_url a))"
proof -
  have "fst (busquedaParcial q st) = resultado_parcial v"
    using parcial_loop_primero_minimo [OF assms(2-4), of None v None None]
    by (simp add: busquedaParcial_fst assms(1))
  then show ?thesis by (simp add: resultado_parcial_Archivos)
qed

text \<open>
  Two stored keys contain the query and are one character longer: the first one wins.
\<close>

theorem busquedaParcial_primer_empate_witness:
  "coincide ''b'' ''ab'' \<and> coincide ''b'' ''bc'' \<and>
   distancia ''b'' ''ab'' = distancia ''b'' ''bc'' \<and>
   fst (busquedaParcial ''b''
          (estado_con [(''ab'', Archivos [imagen_de ''u1'']), (''bc'', Archivos [imagen_de ''u2''])] []))
     = Some [''u1'']"
proof -
  let ?st = "estado_con [(''ab'', Archivos [imagen_de ''u1'']), (''bc'', Archivos [imagen_de ''u2''])] []"
  have i: "imagenIndex ?st
             = [] @ (''ab'', Archivos [imagen_de ''u1'']) # [(''bc'', Archivos [imagen_de ''u2''])]"
    by (simp add: estado_con_def)
  have c1: "coincide ''b'' ''ab''" by (simp add: coincide_def startsWith_def)
  have c2: "coincide ''b'' ''bc''" by (simp add: coincide_def startsWith_def)
  have d: "distancia ''b'' ''ab'' = distancia ''b'' ''bc''" by (simp add: distancia_def)
  have p: "\<forall>(c', a') \<in> set []. coincide ''b'' c' \<longrightarrow> distancia ''b'' ''ab'' < distancia ''b'' c'"
    by simp
  have q: "\<forall>(c', a') \<in> set [(''bc'', Archivos [imagen_de ''u2''])].
             coincide ''b'' c' \<longrightarrow> distancia ''b'' ''ab'' \<le> distancia ''b'' c'"
    by (simp add: d)
  have "fst (busquedaParcial ''b'' ?st) = Some (map img_url [imagen_de ''u1''])"
    using busquedaParcial_primer_empate [OF i c1 p q] by blast
  then show ?thesis using c1 c2 d by (simp add: imagen_de_def)
qed

lemma findImageUrls_try_parcial:
  assumes "q = toLowerCase (trim clave)" "q \<noteq> []" "imagenIndex st \<noteq> []"
    "exacta (imagenIndex st) q = None" "desde_alias st q = None"
    "busquedaParcial q st = (Some p, st2)" "p \<noteq> []"
  shows "findImageUrls_try w clave st = (Some p, st2)"
  using assms by (simp add: findImageUrls_try_def Let_def)

lemma findImageUrls_parcial:
  assumes "q = toLowerCase (trim clave)" "q \<noteq> []" "imagenIndex st \<noteq> []"
    "exacta (imagenIndex st) q = None" "desde_alias st q = None"
    "busquedaParcial q st = (Some p, st2)" "p \<noteq> []"
  shows "findImageUrls w clave st = (p, st2)"
  using findImageUrls_try_parcial [OF assms] by (simp add: findImageUrls_def)

text \<open>
  C3. The partial search goes through the index in its order and takes a stored key when
  the query occurs in it or it occurs in the query. With no such key the result is empty;
  otherwise the result is made from the value of an accepted key whose length differs least
  from the query's: the URLs of its images. At an accepted key of the same length the loop
  returns at once, without looking at the folders that follow. When steps 1 and 2 of
  \<^verbatim>\<open>findImageUrls\<close> miss and the partial search finds URLs, they are the answer.
\<close>

theorem busquedaParcial_minimiza:
  "(coincide q c \<longleftrightarrow> (\<exists>pre post. c = pre @ q @ post) \<or> (\<exists>pre post. q = pre @ c @ post)) \<and>
   ((\<forall>(c', a') \<in> set (imagenIndex st). \<not> coincide q c') \<longrightarrow> fst (busquedaParcial q st) = Some []) \<and>
   ((\<exists>(c', a') \<in> set (imagenIndex st). coincide q c') \<longrightarrow>
      (\<exists>(c1, v1) \<in> set (imagenIndex st). coincide q c1 \<and>
         fst (busquedaParcial q st) = resultado_parcial v1 \<and>
         (\<forall>(c', a') \<in> set (imagenIndex st). coincide q c' \<longrightarrow> distancia q c1 \<le> distancia q c'))) \<and>
   resultado_parcial (Archivos a) = Some (map img_url a) \<and>
   (coincide q c \<and> distancia q c = 0 \<and> ms \<noteq> Some 0 \<longrightarrow>
      parcial_loop q ((c, v) # resto) (ms, mc, ma) = (Some 0, Some c, Some v)) \<and>
   (imagenIndex st = pre @ (c, v) # post \<and> coincide q c \<and> distancia q c = 0 \<and>
    (\<forall>(c', a') \<in> set pre. coincide q c' \<longrightarrow> distancia q c' \<noteq> 0) \<longrightarrow>
      fst (busquedaParcial q st) = resultado_parcial v) \<and>
   (q = toLowerCase (trim clave) \<and> q \<noteq> [] \<and> imagenIndex st \<noteq> [] \<and>
    exacta (imagenIndex st) q = None \<and> desde_alias st q = None \<and>
    busquedaParcial q st = (Some p, st2) \<and> p \<noteq> [] \<longrightarrow>
      findImageUrls w clave st = (p, st2))"
proof -
  have p1: "coincide q c \<longleftrightarrow> (\<exists>pre post. c = pre @ q @ post) \<or> (\<exists>pre post. q = pre @ c @ post)"
    by (simp add: coincide_def str_includes_iff)
  have p2: "(\<forall>(c', a') \<in> set (imagenIndex st). \<not> coincide q c') \<longrightarrow>
              fst (busquedaParcial q st) = Some []"
    by (simp add: busquedaParcial_fst parcial_loop_sin_candidato)
  have p3: "(\<exists>(c', a') \<in> set (imagenIndex st). coincide q c') \<longrightarrow>
      (\<exists>(c1, v1) \<in> set (imagenIndex st). coincide q c1 \<and>
         fst (busquedaParcial q st) = resultado_parcial v1 \<and>
         (\<forall>(c', a') \<in> set (imagenIndex st). coincide q c' \<longrightarrow> distancia q c1 \<le> distancia q c'))"
  proof
    assume "\<exists>(c', a') \<in> set (imagenIndex st). coincide q c'"
    then obtain pre c1 v1 post where d: "imagenIndex st = pre @ (c1, v1) # post" "coincide q c1"
       "\<forall>(c', a') \<in> set pre. coincide q c' \<longrightarrow> distancia q c1 < distancia q c'"
       "\<forall>(c', a') \<in> set post. coincide q c' \<longrightarrow> distancia q c1 \<le> distancia q c'"
      using existe_primero_minimo [of "imagenIndex st" q] by blast
    have r: "fst (busquedaParcial q st) = resultado_parcial v1"
      using parcial_loop_primero_minimo [OF d(2-4), of None v1 None None]
      by (simp add: busquedaParcial_fst d(1))
    have m: "\<forall>(c', a') \<in> set (imagenIndex st). coincide q c' \<longrightarrow> distancia q c1 \<le> distancia q c'"
      using d by (auto simp: less_imp_le)
    have "(c1, v1) \<in> set (imagenIndex st)" using d(1) by simp
    with d(2) r m show "\<exists>(c1, v1) \<in> set (imagenIndex st). coincide q c1 \<and>
         fst (busquedaParcial q st) = resultado_parcial v1 \<and>
         (\<forall>(c', a') \<in> set (imagenIndex st). coincide q c' \<longrightarrow> distancia q c1 \<le> distancia q c')"
      by blast
  qed
  note p3b = resultado_parcial_Archivos [of a]
  have p4: "coincide q c \<and> distancia q c = 0 \<and> ms \<noteq> Some 0 \<longrightarrow>
      parcial_loop q ((c, v) # resto) (ms, mc, ma) = (Some 0, Some c, Some v)"
    by (cases ms) (simp_all add: parcial_loop_Cons del: parcial_loop.simps(2))
  have p5: "imagenIndex st = pre @ (c, v) # post \<and> coincide q c \<and> distancia q c = 0 \<and>
    (\<forall>(c', a') \<in> set pre. coincide q c' \<longrightarrow> distancia q c' \<noteq> 0) \<longrightarrow>
      fst (busquedaParcial q st) = resultado_parcial v"
  proof
    assume h: "imagenIndex st = pre @ (c, v) # post \<and> coincide q c \<and> distancia q c = 0 \<and>
      (\<forall>(c', a') \<in> set pre. coincide q c' \<longrightarrow> distancia q c' \<noteq> 0)"
    then have a1: "\<forall>(c', a') \<in> set pre. coincide q c' \<longrightarrow> distancia q c < distancia q c'" by auto
    from h have a2: "\<forall>(c', a') \<in> set post. coincide q c' \<longrightarrow> distancia q c \<le> distancia q c'" by auto
    from h have a0: "coincide q c" by simp
    show "fst (busquedaParcial q st) = resultado_parcial v"
      using parcial_loop_primero_minimo [OF a0 a1 a2, of None v None None] h
      by (simp add: busquedaParcial_fst)
  qed
  have p6: "q = toLowerCase (trim clave) \<and> q \<noteq> [] \<and> imagenIndex st \<noteq> [] \<and>
    exacta (imagenIndex st) q = None \<and> desde_alias st q = None \<and>
    busquedaParcial q st = (Some p, st2) \<and> p \<noteq> [] \<longrightarrow>
      findImageUrls w clave st = (p, st2)"
    using findImageUrls_parcial by blast
  from p1 p2 p3 p3b p4 p5 p6 show ?thesis by blast
qed

text \<open>
  Scenario C: the query occurs in the only stored key.
\<close>

theorem busquedaParcial_minimiza_witness:
  "coincide ''002-03'' ''i-01-002-03x'' \<and>
   fst (findImageUrls mundo_sin_red '' 002-03'' estado_C) = [''u1'', ''u2'']"
proof -
  have c: "coincide ''002-03'' ''i-01-002-03x''"
    by (simp add: coincide_def startsWith_def)
  have b: "busquedaParcial ''002-03'' estado_C
             = (Some [''u1'', ''u2''], emitir (LogParcial ''i-01-002-03x'') estado_C)"
    by code_simp
  have n: "''002-03'' = toLowerCase (trim '' 002-03'')" by code_simp
  have e: "exacta (imagenIndex estado_C) ''002-03'' = None" by code_simp
  have al: "desde_alias estado_C ''002-03'' = None" by code_simp
  have i: "imagenIndex estado_C \<noteq> []" by code_simp
  have "findImageUrls mundo_sin_red '' 002-03'' estado_C
          = ([''u1'', ''u2''], emitir (LogParcial ''i-01-002-03x'') estado_C)"
    using busquedaParcial_minimiza [where q = "''002-03''" and st = estado_C and clave = "'' 002-03''"
        and w = mundo_sin_red and p = "[''u1'', ''u2'']"
        and ?st2.0 = "emitir (LogParcial ''i-01-002-03x'') estado_C"]
      n e al i b by simp
  with c show ?thesis by simp
qed

subsection \<open>Exact and alias lookups on a built index\<close>

lemma recorrer_items_eq:
  "recorrer_items its (acc, n) =
     (acc @ List.map_filter archivo_de its, n + length (List.map_filter archivo_de its))"
  by (induction its arbitrary: acc n) (auto simp: List.map_filter_simps split: option.splits)

lemma procesar_carpeta_eq:
  "procesar_carpeta c b =
     (if clave_de c = [] \<or> archivos_validos c = [] then b
      else b \<lparr> totalArchivos := totalArchivos b + length (archivos_validos c),
               nuevoIndice := map_set (clave_de c) (Archivos (archivos_validos c)) (nuevoIndice b),
               nuevoAlias :=
                 (if truthy (carpeta_alias c)
                  then map_set (toLowerCase (the (carpeta_alias c))) (Texto (clave_de c)) (nuevoAlias b)
                  else nuevoAlias b),
               totalCarpetas := Suc (totalCarpetas b) \<rparr>)"
  by (cases "carpeta_children c")
     (auto simp: procesar_carpeta_def archivos_validos_def recorrer_items_eq Let_def
        List.map_filter_simps)

lemma construir_desde_carpetas:
  "construir_desde d = fold procesar_carpeta (carpetas_de d) construccion_vacia"
proof -
  have "fold procesar_nodo ns b =
        fold procesar_carpeta
          (concat (map (\<lambda>nodo. case nodo_children nodo of Some cs \<Rightarrow> cs | None \<Rightarrow> []) ns)) b"
    for ns b
    by (induction ns arbitrary: b) (auto simp: procesar_nodo_def split: option.splits)
  then show ?thesis by (simp add: construir_desde_def carpetas_de_def)
qed

lemma fold_procesar_conserva:
  "\<forall>c' \<in> set post. clave_de c' = k \<longrightarrow> archivos_validos c' = [] \<Longrightarrow>
   map_of (nuevoIndice (fold procesar_carpeta post b)) k = map_of (nuevoIndice b) k"
  by (induction post arbitrary: b) (auto simp: procesar_carpeta_eq map_of_map_set)

lemma fold_procesar_ultimo:
  assumes "clave_de c \<noteq> []" "archivos_validos c \<noteq> []"
    and "\<forall>c' \<in> set post. clave_de c' = clave_de c \<longrightarrow> archivos_validos c' = []"
  shows "map_of (nuevoIndice (fold procesar_carpeta (pre @ c # post) b)) (clave_de c)
           = Some (Archivos (archivos_validos c))"
  using assms by (simp add: fold_procesar_conserva procesar_carpeta_eq map_of_map_set)

lemma toLowerCase_Nil_iff [simp]: "toLowerCase s = [] \<longleftrightarrow> s = []"
  by (simp add: toLowerCase_def)

lemma ok_indice:
  "construccion_ok b \<Longrightarrow> map_of (nuevoIndice b) k = Some v \<Longrightarrow>
   k \<noteq> [] \<and> (\<exists>a. v = Archivos a \<and> a \<noteq> [])"
  unfolding construccion_ok_def by (cases v) fastforce+

lemma ok_alias:
  "construccion_ok b \<Longrightarrow> map_of (nuevoAlias b) a = Some v \<Longrightarrow>
   a \<noteq> [] \<and> (\<exists>k. v = Texto k \<and> map_of (nuevoIndice b) k \<noteq> None)"
  unfolding construccion_ok_def by (cases v) fastforce+

lemma construccion_okI:
  assumes "\<And>k v. map_of (nuevoIndice b) k = Some v \<Longrightarrow> k \<noteq> [] \<and> (\<exists>a. v = Archivos a \<and> a \<noteq> [])"
    and "\<And>a v. map_of (nuevoAlias b) a = Some v \<Longrightarrow>
           a \<noteq> [] \<and> (\<exists>k. v = Texto k \<and> map_of (nuevoIndice b) k \<noteq> None)"
  shows "construccion_ok b"
  unfolding construccion_ok_def
proof (intro conjI allI impI)
  fix k v assume "map_of (nuevoIndice b) k = Some v"
  from assms(1) [OF this] show "k \<noteq> []" by simp
  from assms(1) [OF \<open>map_of (nuevoIndice b) k = Some v\<close>]
  show "case v of Archivos a \<Rightarrow> a \<noteq> [] | Texto t \<Rightarrow> False" by auto
next
  fix a v assume "map_of (nuevoAlias b) a = Some v"
  from assms(2) [OF this] show "a \<noteq> []" by simp
  from assms(2) [OF \<open>map_of (nuevoAlias b) a = Some v\<close>]
  show "case v of Archivos x \<Rightarrow> False | Texto k \<Rightarrow> map_of (nuevoIndice b) k \<noteq> None" by auto
qed

lemma procesar_carpeta_ok:
  assumes "construccion_ok b"
  shows "construccion_ok (procesar_carpeta c b)"
proof (cases "clave_de c = [] \<or> archivos_validos c = []")
  case True
  then show ?thesis using assms by (simp add: procesar_carpeta_eq)
next
  case False
  let ?b = "procesar_carpeta c b"
  have i: "map_of (nuevoIndice ?b) = (map_of (nuevoIndice b))(clave_de c \<mapsto> Archivos (archivos_validos c))"
    using False by (simp add: procesar_carpeta_eq map_of_map_set)
  have a: "map_of (nuevoAlias ?b) =
             (if truthy (carpeta_alias c)
              then (map_of (nuevoAlias b))(toLowerCase (the (carpeta_alias c)) \<mapsto> Texto (clave_de c))
              else map_of (nuevoAlias b))"
    using False by (simp add: procesar_carpeta_eq map_of_map_set)
  show ?thesis
  proof (rule construccion_okI)
    fix k v assume "map_of (nuevoIndice ?b) k = Some v"
    then show "k \<noteq> [] \<and> (\<exists>a. v = Archivos a \<and> a \<noteq> [])"
      using False ok_indice [OF assms, of k v] by (auto simp: i split: if_splits)
  next
    fix al v assume h: "map_of (nuevoAlias ?b) al = Some v"
    show "al \<noteq> [] \<and> (\<exists>k. v = Texto k \<and> map_of (nuevoIndice ?b) k \<noteq> None)"
    proof (cases "truthy (carpeta_alias c) \<and> al = toLowerCase (the (carpeta_alias c))")
      case True
      then have "v = Texto (clave_de c)" using h by (simp add: a)
      moreover have "al \<noteq> []" using True by (auto simp: truthy_def split: option.splits)
      ultimately show ?thesis by (simp add: i)
    next
      case False
      then have "map_of (nuevoAlias b) al = Some v" using h by (auto simp: a split: if_splits)
      from ok_alias [OF assms this] show ?thesis by (auto simp: i)
    qed
  qed
qed

lemma fold_procesar_ok: "construccion_ok b \<Longrightarrow> construccion_ok (fold procesar_carpeta cs b)"
  by (induction cs arbitrary: b) (auto simp: procesar_carpeta_ok)

lemma construir_desde_ok: "construccion_ok (construir_desde d)"
proof -
  have "construccion_ok construccion_vacia"
    by (simp add: construccion_ok_def construccion_vacia_def)
  then show ?thesis by (simp add: construir_desde_carpetas fold_procesar_ok)
qed

lemma findImageUrls_tier1:
  assumes "toLowerCase (trim clave) = k" "k \<noteq> []" "map_of (imagenIndex st) k = Some (Archivos v)"
    "v \<noteq> []"
  shows "findImageUrls w clave st = (map img_url v, emitir (LogExacta (length v)) st)"
proof -
  have "imagenIndex st \<noteq> []" using assms(3) by auto
  then show ?thesis
    using assms
    by (simp add: findImageUrls_def findImageUrls_try_def exacta_def largo_def urls_de_def Let_def)
qed

lemma findImageUrls_tier2:
  assumes "toLowerCase (trim clave) = a" "a \<noteq> []" "map_of (imagenIndex st) a = None"
    "map_of (aliasIndex st) a = Some (Texto k)" "k \<noteq> []"
    "map_of (imagenIndex st) k = Some (Archivos v)" "v \<noteq> []"
  shows "findImageUrls w clave st = (map img_url v, emitir (LogAlias (length v)) st)"
proof -
  have "imagenIndex st \<noteq> []" using assms(6) by auto
  then show ?thesis
    using assms
    by (simp add: findImageUrls_def findImageUrls_try_def exacta_def desde_alias_def largo_def
          urls_de_def Let_def)
qed

text \<open>
  C1 (as amended). Let \<open>c\<close> be the last folder of the tree, in its order, that has the key
  \<open>k\<close> and at least one usable file: the build records the files of \<open>c\<close> under \<open>k\<close>. When
  \<open>k\<close> is the trimmed, lower-case form of the string given to \<^verbatim>\<open>findImageUrls\<close>, the answer
  is the URLs of these files, in their order, found by the exact match (step 1), with no
  request to the network. The build stores a key sent by the server as it is, so a key that
  is not in this form already is not found this way: see the counterexample.
\<close>

theorem findImageUrls_exacta:
  assumes "carpetas_de d = pre @ c # post"
    and "clave_de c = k" and "archivos_validos c \<noteq> []"
    and "\<forall>c' \<in> set post. clave_de c' = k \<longrightarrow> archivos_validos c' = []"
    and "imagenIndex st = nuevoIndice (construir_desde d)"
    and "toLowerCase (trim clave) = k" and "k \<noteq> []"
  shows "map_of (nuevoIndice (construir_desde d)) k = Some (Archivos (archivos_validos c)) \<and>
         findImageUrls w clave st =
           (map img_url (archivos_validos c), emitir (LogExacta (length (archivos_validos c))) st)"
proof -
  have m: "map_of (nuevoIndice (construir_desde d)) k = Some (Archivos (archivos_validos c))"
    using fold_procesar_ultimo [of c post pre construccion_vacia] assms(1-4,7)
    by (simp add: construir_desde_carpetas)
  then have "map_of (imagenIndex st) k = Some (Archivos (archivos_validos c))"
    using assms(5) by simp
  from findImageUrls_tier1 [OF assms(6,7) this assms(3)] m show ?thesis by simp
qed

text \<open>
  C2 (as amended). Let the build have recorded the alias \<open>a\<close> for the key \<open>k\<close>. When \<open>a\<close> is
  the trimmed, lower-case form of the string given to \<^verbatim>\<open>findImageUrls\<close> and \<open>a\<close> is not a
  key of the index itself, the answer is the URLs recorded for \<open>k\<close>, found through the alias
  (step 2); it is the answer to \<open>k\<close> itself when \<open>k\<close> is in trimmed, lower-case form. The
  build lower-cases an alias but does not trim it: see the counterexample.
\<close>

theorem findImageUrls_alias:
  assumes "imagenIndex st = nuevoIndice (construir_desde d)"
    and "aliasIndex st = nuevoAlias (construir_desde d)"
    and "map_of (nuevoAlias (construir_desde d)) a = Some (Texto k)"
    and "toLowerCase (trim clave) = a"
    and "map_of (nuevoIndice (construir_desde d)) a = None"
  shows "\<exists>archivos. map_of (nuevoIndice (construir_desde d)) k = Some (Archivos archivos) \<and>
      archivos \<noteq> [] \<and>
      findImageUrls w clave st = (map img_url archivos, emitir (LogAlias (length archivos)) st) \<and>
      (toLowerCase (trim k) = k \<longrightarrow>
         findImageUrls w k st = (map img_url archivos, emitir (LogExacta (length archivos)) st))"
proof -
  have ok: "construccion_ok (construir_desde d)" by (rule construir_desde_ok)
  from ok_alias [OF ok assms(3)]
  have a: "a \<noteq> []" and "map_of (nuevoIndice (construir_desde d)) k \<noteq> None" by auto
  then obtain x where x: "map_of (nuevoIndice (construir_desde d)) k = Some x" by auto
  from ok_indice [OF ok x] obtain v where k: "k \<noteq> []" and xv: "x = Archivos v" and vn: "v \<noteq> []"
    by auto
  from x xv have v: "map_of (nuevoIndice (construir_desde d)) k = Some (Archivos v)" by simp
  have t2: "findImageUrls w clave st = (map img_url v, emitir (LogAlias (length v)) st)"
    using findImageUrls_tier2 [of clave a st k v w] assms a k v vn by simp
  have t1: "toLowerCase (trim k) = k \<longrightarrow>
         findImageUrls w k st = (map img_url v, emitir (LogExacta (length v)) st)"
    using findImageUrls_tier1 [of k k st v w] assms(1) k v vn by simp
  from v vn t2 t1 show ?thesis by blast
qed

text \<open>
  Scenario A: the key is stored in lower case and asked for in upper case, with a space before it.
\<close>

theorem findImageUrls_exacta_witness:
  "toLowerCase (trim '' I-01-002-03'') = ''i-01-002-03'' \<and>
   fst (findImageUrls (mundo_estable arbol_AB) '' I-01-002-03''
          (snd (construirIndiceImagenes (mundo_estable arbol_AB) False estado_vacio)))
     = [driveUrl ''f1'', driveUrl ''f2'']"
proof -
  let ?st = "snd (construirIndiceImagenes (mundo_estable arbol_AB) False estado_vacio)"
  have h1: "carpetas_de arbol_AB = [] @ carpeta_AB # []" by code_simp
  have h2: "clave_de carpeta_AB = ''i-01-002-03''" by code_simp
  have h3: "archivos_validos carpeta_AB \<noteq> []" by code_simp
  have h4: "\<forall>c' \<in> set []. clave_de c' = ''i-01-002-03'' \<longrightarrow> archivos_validos c' = []" by simp
  have h5: "imagenIndex ?st = nuevoIndice (construir_desde arbol_AB)" by code_simp
  have h6: "toLowerCase (trim '' I-01-002-03'') = ''i-01-002-03''" by code_simp
  have h7: "''i-01-002-03'' \<noteq> []" by simp
  have a: "map img_url (archivos_validos carpeta_AB) = [driveUrl ''f1'', driveUrl ''f2'']"
    by code_simp
  from findImageUrls_exacta [OF h1 h2 h3 h4 h5 h6 h7, of "mundo_estable arbol_AB"] a h6
  show ?thesis by simp
qed

text \<open>
  C1 as stated fails: the server sends the key \<^verbatim>\<open>I-01-002-03\<close>, the build stores it as it
  is, and the lookup of this very key, which it lower-cases, finds nothing at any step.
\<close>

theorem findImageUrls_exacta_counterexample:
  "map_of (nuevoIndice (construir_desde arbol_mayusculas)) ''I-01-002-03''
     = Some (Archivos [imagen_de (driveUrl ''f1'')]) \<and>
   imagenIndex (snd (construirIndiceImagenes (mundo_estable arbol_mayusculas) False estado_vacio))
     = nuevoIndice (construir_desde arbol_mayusculas) \<and>
   fst (findImageUrls (mundo_estable arbol_mayusculas) ''I-01-002-03''
          (snd (construirIndiceImagenes (mundo_estable arbol_mayusculas) False estado_vacio))) = []"
  by code_simp

text \<open>
  Scenario B: the folder of scenario A is found by its alias, and by its key, with the same URLs.
\<close>

theorem findImageUrls_alias_witness:
  "fst (findImageUrls (mundo_estable arbol_AB) ''Plaza Centro''
          (snd (construirIndiceImagenes (mundo_estable arbol_AB) False estado_vacio)))
     = [driveUrl ''f1'', driveUrl ''f2''] \<and>
   fst (findImageUrls (mundo_estable arbol_AB) ''i-01-002-03''
          (snd (construirIndiceImagenes (mundo_estable arbol_AB) False estado_vacio)))
     = [driveUrl ''f1'', driveUrl ''f2'']"
proof -
  let ?st = "snd (construirIndiceImagenes (mundo_estable arbol_AB) False estado_vacio)"
  have h1: "imagenIndex ?st = nuevoIndice (construir_desde arbol_AB)" by code_simp
  have h2: "aliasIndex ?st = nuevoAlias (construir_desde arbol_AB)" by code_simp
  have h3: "map_of (nuevoAlias (construir_desde arbol_AB)) ''plaza centro''
              = Some (Texto ''i-01-002-03'')"
    by code_simp
  have h4: "toLowerCase (trim ''Plaza Centro'') = ''plaza centro''" by code_simp
  have h5: "map_of (nuevoIndice (construir_desde arbol_AB)) ''plaza centro'' = None" by code_simp
  have h6: "toLowerCase (trim ''i-01-002-03'') = ''i-01-002-03''" by code_simp
  have v: "map_of (nuevoIndice (construir_desde arbol_AB)) ''i-01-002-03''
             = Some (Archivos [imagen_de (driveUrl ''f1''), imagen_de (driveUrl ''f2'')])"
    by code_simp
  from findImageUrls_alias [OF h1 h2 h3 h4 h5, of "mundo_estable arbol_AB"] h6 v
  show ?thesis by (auto simp: imagen_de_def)
qed

text \<open>
  C2 as stated fails: the alias, recorded with the space at its end, is asked for as it was
  recorded; the lookup trims it and finds nothing, while the key itself is found.
\<close>

theorem findImageUrls_alias_counterexample:
  "map_of (nuevoAlias (construir_desde arbol_alias_espacio)) ''plaza centro ''
     = Some (Texto ''i-01-002-03'') \<and>
   aliasIndex (snd (construirIndiceImagenes (mundo_estable arbol_alias_espacio) False estado_vacio))
     = nuevoAlias (construir_desde arbol_alias_espacio) \<and>
   fst (findImageUrls (mundo_estable arbol_alias_espacio) ''plaza centro ''
          (snd (construirIndiceImagenes (mundo_estable arbol_alias_espacio) False estado_vacio))) = [] \<and>
   fst (findImageUrls (mundo_estable arbol_alias_espacio) ''i-01-002-03''
          (snd (construirIndiceImagenes (mundo_estable arbol_alias_espacio) False estado_vacio)))
     = [driveUrl ''f1'']"
  by code_simp

text \<open>
  C7 (as amended). A folder with no key from the server and a name in which the pattern
  is not found gets its trimmed, lower-cased name as key. It leaves the index, the aliases
  and both counters as they were exactly when this name is empty or the folder has no
  usable file; otherwise its usable files are recorded under that key, its alias, if it has
  one, is recorded, and the files and the folder are counted. Whatever its key comes from,
  a folder is passed over exactly when its key is the empty string or it has no usable file.
\<close>

theorem carpeta_sin_clave_reconocible:
  assumes "carpeta_k c = None"
    and "nombre = (case carpeta_name c of Some n \<Rightarrow> n | None \<Rightarrow> [])"
    and "patron_exec nombre = None"
  shows "clave_de c = toLowerCase (trim nombre) \<and>
         (procesar_carpeta c b = b \<longleftrightarrow> trim nombre = [] \<or> archivos_validos c = []) \<and>
         (trim nombre \<noteq> [] \<and> archivos_validos c \<noteq> [] \<longrightarrow>
            procesar_carpeta c b =
              b \<lparr> totalArchivos := totalArchivos b + length (archivos_validos c),
                  nuevoIndice := map_set (toLowerCase (trim nombre)) (Archivos (archivos_validos c))
                                   (nuevoIndice b),
                  nuevoAlias :=
                    (if truthy (carpeta_alias c)
                     then map_set (toLowerCase (the (carpeta_alias c)))
                            (Texto (toLowerCase (trim nombre))) (nuevoAlias b)
                     else nuevoAlias b),
                  totalCarpetas := Suc (totalCarpetas b) \<rparr> \<and>
            map_of (nuevoIndice (procesar_carpeta c b)) (toLowerCase (trim nombre))
              = Some (Archivos (archivos_validos c))) \<and>
         (procesar_carpeta c2 b = b \<longleftrightarrow> clave_de c2 = [] \<or> archivos_validos c2 = [])"
proof -
  have k: "clave_de c = toLowerCase (trim nombre)"
    using assms by (simp add: clave_de_def normalizarClaveClienteFallback_def)
  have g: "procesar_carpeta x b = b \<longleftrightarrow> clave_de x = [] \<or> archivos_validos x = []" for x
  proof
    assume e: "procesar_carpeta x b = b"
    show "clave_de x = [] \<or> archivos_validos x = []"
    proof (rule ccontr)
      assume "\<not> (clave_de x = [] \<or> archivos_validos x = [])"
      then have "totalCarpetas (procesar_carpeta x b) = Suc (totalCarpetas b)"
        by (simp add: procesar_carpeta_eq)
      with e show False by simp
    qed
  next
    assume "clave_de x = [] \<or> archivos_validos x = []"
    then show "procesar_carpeta x b = b" by (simp add: procesar_carpeta_eq)
  qed
  have p2: "procesar_carpeta c b = b \<longleftrightarrow> trim nombre = [] \<or> archivos_validos c = []"
    using g [of c] k by simp
  have p3: "trim nombre \<noteq> [] \<and> archivos_validos c \<noteq> [] \<longrightarrow>
            procesar_carpeta c b =
              b \<lparr> totalArchivos := totalArchivos b + length (archivos_validos c),
                  nuevoIndice := map_set (toLowerCase (trim nombre)) (Archivos (archivos_validos c))
                                   (nuevoIndice b),
                  nuevoAlias :=
                    (if truthy (carpeta_alias c)
                     then map_set (toLowerCase (the (carpeta_alias c)))
                            (Texto (toLowerCase (trim nombre))) (nuevoAlias b)
                     else nuevoAlias b),
                  totalCarpetas := Suc (totalCarpetas b) \<rparr> \<and>
            map_of (nuevoIndice (procesar_carpeta c b)) (toLowerCase (trim nombre))
              = Some (Archivos (archivos_validos c))"
    using k by (simp add: procesar_carpeta_eq map_of_map_set)
  from k p2 p3 g [of c2] show ?thesis by blast
qed

text \<open>
  A folder with no key and a blank name leaves the build as it was, though it has a usable
  file; so does a folder with a free name and a file that has no identifier. A folder with
  a free name and a usable file is recorded under its name.
\<close>

theorem carpeta_sin_clave_reconocible_witness:
  "carpeta_k carpeta_en_blanco = None \<and> patron_exec ''  '' = None \<and>
   archivos_validos carpeta_en_blanco \<noteq> [] \<and>
   procesar_carpeta carpeta_en_blanco construccion_vacia = construccion_vacia \<and>
   carpeta_k carpeta_sin_archivos = None \<and> patron_exec ''Plaza Centro'' = None \<and>
   trim ''Plaza Centro'' \<noteq> [] \<and>
   procesar_carpeta carpeta_sin_archivos construccion_vacia = construccion_vacia \<and>
   map_of (nuevoIndice (procesar_carpeta (carpeta_simple None (Some ''Plaza Centro'')
                                            (Some ''Centro'') [''f1'']) construccion_vacia))
     ''plaza centro'' = Some (Archivos [imagen_de (driveUrl ''f1'')])"
proof -
  let ?c = "carpeta_simple None (Some ''Plaza Centro'') (Some ''Centro'') [''f1'']"
  have e1: "carpeta_k ?c = None" by code_simp
  have e2: "''Plaza Centro'' = (case carpeta_name ?c of Some n \<Rightarrow> n | None \<Rightarrow> [])"
    by code_simp
  have e5: "archivos_validos ?c = [imagen_de (driveUrl ''f1'')]" by code_simp
  have e6: "toLowerCase (trim ''Plaza Centro'') = ''plaza centro''" by code_simp
  have h1: "carpeta_k carpeta_en_blanco = None" by code_simp
  have h2: "''  '' = (case carpeta_name carpeta_en_blanco of Some n \<Rightarrow> n | None \<Rightarrow> [])"
    by code_simp
  have h3: "patron_exec ''  '' = None" by code_simp
  have h4: "trim ''  '' = []" by code_simp
  have h5: "archivos_validos carpeta_en_blanco \<noteq> []" by code_simp
  have g1: "carpeta_k carpeta_sin_archivos = None" by code_simp
  have g2: "''Plaza Centro'' = (case carpeta_name carpeta_sin_archivos of Some n \<Rightarrow> n | None \<Rightarrow> [])"
    by code_simp
  have g3: "patron_exec ''Plaza Centro'' = None" by code_simp
  have g4: "trim ''Plaza Centro'' \<noteq> []" by code_simp
  have g5: "archivos_validos carpeta_sin_archivos = []" by code_simp
  note t1 = carpeta_sin_clave_reconocible [OF h1 h2 h3, of construccion_vacia, THEN conjunct2,
      THEN conjunct1]
  note t2 = carpeta_sin_clave_reconocible [OF g1 g2 g3, of construccion_vacia, THEN conjunct2,
      THEN conjunct1]
  from t1 h4 have r1: "procesar_carpeta carpeta_en_blanco construccion_vacia = construccion_vacia"
    by simp
  from t2 g5 have r2: "procesar_carpeta carpeta_sin_archivos construccion_vacia = construccion_vacia"
    by simp
  note t3 = carpeta_sin_clave_reconocible [OF e1 e2 g3, of construccion_vacia, THEN conjunct2,
      THEN conjunct2, THEN conjunct1]
  from t3 g4 e5 e6
  have r3: "map_of (nuevoIndice (procesar_carpeta ?c construccion_vacia)) ''plaza centro''
              = Some (Archivos [imagen_de (driveUrl ''f1'')])"
    by (simp add: map_of_map_set)
  from h1 h3 h5 r1 g1 g3 g4 r2 r3 show ?thesis by blast
qed

text \<open>
  C7 as stated fails: a folder with no key and the name \<^verbatim>\<open>Plaza Centro\<close>, in which the pattern
  is not found, enters the index under \<^verbatim>\<open>plaza centro\<close>, and its file is counted.
\<close>

theorem carpeta_sin_clave_reconocible_counterexample:
  "carpetas_de arbol_nombre_libre = [carpeta_simple None (Some ''Plaza Centro'') None [''f1'']] \<and>
   patron_exec ''Plaza Centro'' = None \<and>
   nuevoIndice (construir_desde arbol_nombre_libre)
     = [(''plaza centro'', Archivos [imagen_de (driveUrl ''f1'')])] \<and>
   totalCarpetas (construir_desde arbol_nombre_libre) = 1 \<and>
   totalArchivos (construir_desde arbol_nombre_libre) = 1"
  by code_simp

subsection \<open>Loading the cache of a version\<close>

lemma cargarDesdeCacheLocal_Some:
  assumes "fst (cargarDesdeCacheLocal w v st) \<noteq> None"
  shows "\<exists>m. map_of (localStorage st) (CACHE_META_PREFIX @ v) = Some (SMeta m) \<and>
           clock w (count_list (traza st) DateNow) - meta_timestamp m < TTL_CACHE_MS"
proof -
  let ?cm = "map_of (localStorage st) (CACHE_META_PREFIX @ v)"
  from assms have t: "truthy_item ?cm"
    by (auto simp: cargarDesdeCacheLocal_def Let_def split: if_splits)
  then obtain x where x: "?cm = Some x" by (cases ?cm) (auto simp: truthy_item_def)
  from assms t x obtain m where m: "x = SMeta m"
    by (cases x) (auto simp: cargarDesdeCacheLocal_def Let_def parse_meta_def split: if_splits)
  from assms x m have "clock w (count_list (traza st) DateNow) - meta_timestamp m < TTL_CACHE_MS"
    by (auto simp: cargarDesdeCacheLocal_def Let_def parse_meta_def date_now_def
          split: if_splits)
  with x m show ?thesis by simp
qed

lemma cargarDesdeCacheLocal_vencido:
  assumes "map_of (localStorage st) (CACHE_META_PREFIX @ v) = Some (SMeta m)"
    and "clock w (count_list (traza st) DateNow) - meta_timestamp m \<ge> TTL_CACHE_MS"
  shows "fst (cargarDesdeCacheLocal w v st) = None \<and>
         imagenIndex (snd (cargarDesdeCacheLocal w v st)) = imagenIndex st \<and>
         aliasIndex (snd (cargarDesdeCacheLocal w v st)) = aliasIndex st \<and>
         driveTreeVersion (snd (cargarDesdeCacheLocal w v st)) = driveTreeVersion st"
  using assms
  by (simp add: cargarDesdeCacheLocal_def Let_def parse_meta_def date_now_def emitir_def)

lemma cargarDesdeCacheLocal_fresco:
  assumes "map_of (localStorage st) (CACHE_PREFIX @ v) = Some (SPares idx)"
    and "map_of (localStorage st) (CACHE_META_PREFIX @ v) = Some (SMeta m)"
    and "parse_alias (map_of (localStorage st) (CACHE_PREFIX @ ''alias_'' @ v)) = Some al"
    and "clock w (count_list (traza st) DateNow) - meta_timestamp m < TTL_CACHE_MS"
  shows "cargarDesdeCacheLocal w v st =
           (Some resultado_cache,
            st \<lparr> traza := traza st @ [DateNow], imagenIndex := new_Map idx, aliasIndex := al,
                 driveTreeVersion := Some v \<rparr>)"
  using assms
  by (simp add: cargarDesdeCacheLocal_def Let_def parse_meta_def parse_indice_def date_now_def
        emitir_def truthy_item_def)

text \<open>
  C9. The TTL of the cache is two hours (7200000 ms). \<^verbatim>\<open>_cargarDesdeCacheLocal\<close> returns a
  result only when the store holds a metadata record for the version and the time read from
  the clock, less the record's timestamp, is strictly below the TTL. A record whose age is
  exactly the TTL is stale: the function returns \<^verbatim>\<open>null\<close> and leaves the index, the
  aliases and the version as they were. With a stored index, a metadata record younger than
  the TTL and stored aliases that parse (or none), the stored index is installed.
\<close>

theorem cargarDesdeCacheLocal_TTL:
  "TTL_CACHE_MS = 7200000 \<and>
   (fst (cargarDesdeCacheLocal w v st) \<noteq> None \<longrightarrow>
      (\<exists>m. map_of (localStorage st) (CACHE_META_PREFIX @ v) = Some (SMeta m) \<and>
           clock w (count_list (traza st) DateNow) - meta_timestamp m < TTL_CACHE_MS)) \<and>
   (map_of (localStorage st) (CACHE_META_PREFIX @ v) = Some (SMeta m) \<and>
    clock w (count_list (traza st) DateNow) - meta_timestamp m = TTL_CACHE_MS \<longrightarrow>
      fst (cargarDesdeCacheLocal w v st) = None \<and>
      imagenIndex (snd (cargarDesdeCacheLocal w v st)) = imagenIndex st \<and>
      aliasIndex (snd (cargarDesdeCacheLocal w v st)) = aliasIndex st \<and>
      driveTreeVersion (snd (cargarDesdeCacheLocal w v st)) = driveTreeVersion st) \<and>
   (map_of (localStorage st) (CACHE_PREFIX @ v) = Some (SPares idx) \<and>
    map_of (localStorage st) (CACHE_META_PREFIX @ v) = Some (SMeta m) \<and>
    parse_alias (map_of (localStorage st) (CACHE_PREFIX @ ''alias_'' @ v)) = Some al \<and>
    clock w (count_list (traza st) DateNow) - meta_timestamp m < TTL_CACHE_MS \<longrightarrow>
      fst (cargarDesdeCacheLocal w v st) = Some resultado_cache \<and>
      imagenIndex (snd (cargarDesdeCacheLocal w v st)) = new_Map idx \<and>
      aliasIndex (snd (cargarDesdeCacheLocal w v st)) = al \<and>
      driveTreeVersion (snd (cargarDesdeCacheLocal w v st)) = Some v)"
proof -
  have p0: "TTL_CACHE_MS = 7200000" by (simp add: TTL_CACHE_MS_def)
  note p1 = cargarDesdeCacheLocal_Some [of w v st]
  have p2: "map_of (localStorage st) (CACHE_META_PREFIX @ v) = Some (SMeta m) \<and>
    clock w (count_list (traza st) DateNow) - meta_timestamp m = TTL_CACHE_MS \<longrightarrow>
      fst (cargarDesdeCacheLocal w v st) = None \<and>
      imagenIndex (snd (cargarDesdeCacheLocal w v st)) = imagenIndex st \<and>
      aliasIndex (snd (cargarDesdeCacheLocal w v st)) = aliasIndex st \<and>
      driveTreeVersion (snd (cargarDesdeCacheLocal w v st)) = driveTreeVersion st"
    using cargarDesdeCacheLocal_vencido [of st v m w] by simp
  have p3: "map_of (localStorage st) (CACHE_PREFIX @ v) = Some (SPares idx) \<and>
    map_of (localStorage st) (CACHE_META_PREFIX @ v) = Some (SMeta m) \<and>
    parse_alias (map_of (localStorage st) (CACHE_PREFIX @ ''alias_'' @ v)) = Some al \<and>
    clock w (count_list (traza st) DateNow) - meta_timestamp m < TTL_CACHE_MS \<longrightarrow>
      fst (cargarDesdeCacheLocal w v st) = Some resultado_cache \<and>
      imagenIndex (snd (cargarDesdeCacheLocal w v st)) = new_Map idx \<and>
      aliasIndex (snd (cargarDesdeCacheLocal w v st)) = al \<and>
      driveTreeVersion (snd (cargarDesdeCacheLocal w v st)) = Some v"
    using cargarDesdeCacheLocal_fresco [of st v idx m al w] by simp
  from p0 p1 p2 p3 show ?thesis by blast
qed

text \<open>
  A record saved at time 0 is stale at 7200000 ms and still fresh one millisecond before.
\<close>

theorem cargarDesdeCacheLocal_TTL_witness:
  "map_of (localStorage estado_guardado) (CACHE_META_PREFIX @ ''v1'')
     = Some (SMeta \<lparr> meta_timestamp = 0, meta_version = ''v1'', meta_carpetas = 1, meta_archivos = 2 \<rparr>) \<and>
   fst (cargarDesdeCacheLocal (mundo_a_las 7200000) ''v1'' estado_guardado) = None \<and>
   fst (cargarDesdeCacheLocal (mundo_a_las 7199999) ''v1'' estado_guardado) = Some resultado_cache"
proof -
  let ?m = "\<lparr> meta_timestamp = 0, meta_version = ''v1'', meta_carpetas = 1, meta_archivos = 2 \<rparr>"
  have m: "map_of (localStorage estado_guardado) (CACHE_META_PREFIX @ ''v1'') = Some (SMeta ?m)"
    by code_simp
  have i: "map_of (localStorage estado_guardado) (CACHE_PREFIX @ ''v1'')
             = Some (SPares (nuevoIndice (construir_desde arbol_AB)))"
    by code_simp
  have a: "parse_alias (map_of (localStorage estado_guardado) (CACHE_PREFIX @ ''alias_'' @ ''v1''))
             = Some (nuevoAlias (construir_desde arbol_AB))"
    by code_simp
  have c1: "clock (mundo_a_las 7200000) (count_list (traza estado_guardado) DateNow)
              - meta_timestamp ?m = TTL_CACHE_MS"
    by (simp add: mundo_a_las_def TTL_CACHE_MS_def)
  have c2: "clock (mundo_a_las 7199999) (count_list (traza estado_guardado) DateNow)
              - meta_timestamp ?m < TTL_CACHE_MS"
    by (simp add: mundo_a_las_def TTL_CACHE_MS_def)
  from cargarDesdeCacheLocal_TTL [where w = "mundo_a_las 7200000" and v = "''v1''"
        and st = estado_guardado and m = ?m] m c1
  have r1: "fst (cargarDesdeCacheLocal (mundo_a_las 7200000) ''v1'' estado_guardado) = None"
    by blast
  from cargarDesdeCacheLocal_TTL [where w = "mundo_a_las 7199999" and v = "''v1''"
        and st = estado_guardado and m = ?m and idx = "nuevoIndice (construir_desde arbol_AB)"
        and al = "nuevoAlias (construir_desde arbol_AB)"] m i a c2
  have r2: "fst (cargarDesdeCacheLocal (mundo_a_las 7199999) ''v1'' estado_guardado)
              = Some resultado_cache"
    by blast
  from m r1 r2 show ?thesis by blast
qed

subsection \<open>Falling back on the store when the download fails\<close>

lemma fallback_loop_salta:
  "\<forall>k \<in> set pre. \<not> candidata ls k \<Longrightarrow>
   fallback_loop ls (pre @ resto) st = fallback_loop ls resto st"
  by (induction pre) (auto simp: candidata_def Let_def)

lemma fallback_loop_candidata:
  assumes "candidata ls key"
    and "map_of ls key = Some (SPares idx)"
    and "map_of ls (CACHE_META_PREFIX @ drop (length CACHE_PREFIX) key) = Some (SMeta m)"
    and "parse_alias (map_of ls (CACHE_PREFIX @ ''alias_'' @ drop (length CACHE_PREFIX) key)) = Some al"
  shows "fallback_loop ls (key # resto) st =
           (Some resultado_fallback,
            st \<lparr> imagenIndex := new_Map idx, aliasIndex := al,
                 driveTreeVersion := Some (drop (length CACHE_PREFIX) key) \<rparr>)"
  using assms by (simp add: candidata_def Let_def parse_meta_def parse_indice_def)

lemma str_includes_append_r: "str_includes s t \<Longrightarrow> str_includes (p @ s) t"
  by (induction p) auto

lemma includes_prefijo_meta:
  "str_includes (CACHE_PREFIX @ ver) ''_meta_'' \<longleftrightarrow> str_includes ver ''_meta_''"
  by (simp add: CACHE_PREFIX_def startsWith_def)

lemma includes_prefijo_alias:
  "str_includes (CACHE_PREFIX @ ver) ''alias_'' \<longleftrightarrow> str_includes ver ''alias_''"
  by (simp add: CACHE_PREFIX_def startsWith_def)

lemma localStorage_obtener_version:
  "localStorage (snd (obtener_version w st)) = localStorage st"
  by (simp add: obtener_version_def fetch_version_def emitir_def Let_def split: response.splits)

lemma localStorage_cargarDesdeCacheLocal:
  "localStorage (snd (cargarDesdeCacheLocal w v st)) = localStorage st"
  by (simp add: cargarDesdeCacheLocal_def date_now_def emitir_def Let_def
        split: option.splits)

lemma descargar_falla:
  assumes "tree_resp w (count_list (traza st) FetchTree) = Throws \<or>
           tree_resp w (count_list (traza st) FetchTree) = NotOk"
  shows "descargar_e_instalar w v st =
           (let (fb, st2) = cargarFallbackLocal (emitir (Warn EnConstruir) (emitir FetchTree st))
            in case fb of
                 Some r \<Rightarrow> (r, st2)
               | None \<Rightarrow>
                   (\<lparr> success = False, fromCache = None, isFallback = None, stats = None,
                       fallo = Some EnConstruir \<rparr>, st2))"
  using assms by (auto simp: descargar_e_instalar_def fetch_tree_def)

text \<open>
  When the download fails, the first version of the store that passes the tests of the
  fallback loop is installed, whatever its age.
\<close>

lemma fallback_version_hallada:
  assumes "obtener_version w (emitir (Construir forzar) st) = (v, st1)"
    and "forzar \<or> driveTreeVersion st1 \<noteq> Some v \<or> imagenIndex st1 = []"
    and "(if \<not> forzar \<and> v \<noteq> ''unknown'' then cargarDesdeCacheLocal w v st1 else (None, st1))
           = (None, st2)"
    and "tree_resp w (count_list (traza st2) FetchTree) = Throws \<or>
         tree_resp w (count_list (traza st2) FetchTree) = NotOk"
    and "map fst (localStorage st) = pre @ (CACHE_PREFIX @ ver) # post"
    and "\<forall>k \<in> set pre. \<not> candidata (localStorage st) k"
    and "\<not> str_includes ver ''_meta_''" and "\<not> str_includes ver ''alias_''"
    and "map_of (localStorage st) (CACHE_PREFIX @ ver) = Some (SPares idx)"
    and "map_of (localStorage st) (CACHE_META_PREFIX @ ver) = Some (SMeta m)"
    and "parse_alias (map_of (localStorage st) (CACHE_PREFIX @ ''alias_'' @ ver)) = Some al"
  shows "fst (construirIndiceImagenes w forzar st) = resultado_fallback \<and>
         imagenIndex (snd (construirIndiceImagenes w forzar st)) = new_Map idx \<and>
         aliasIndex (snd (construirIndiceImagenes w forzar st)) = al \<and>
         driveTreeVersion (snd (construirIndiceImagenes w forzar st)) = Some ver"
proof -
  have l1: "localStorage st1 = localStorage st"
    using localStorage_obtener_version [of w "emitir (Construir forzar) st"] assms(1)
    by (simp add: emitir_def)
  have l2: "localStorage st2 = localStorage st"
  proof (cases "\<not> forzar \<and> v \<noteq> ''unknown''")
    case True
    then have "cargarDesdeCacheLocal w v st1 = (None, st2)" using assms(3) by simp
    then show ?thesis using localStorage_cargarDesdeCacheLocal [of w v st1] l1 by simp
  next
    case False
    then show ?thesis using assms(3) l1 by auto
  qed
  let ?st3 = "emitir (Warn EnConstruir) (emitir FetchTree st2)"
  let ?key = "CACHE_PREFIX @ ver"
  have l3: "localStorage ?st3 = localStorage st" using l2 by (simp add: emitir_def)
  have d: "drop (length CACHE_PREFIX) ?key = ver" by simp
  have c: "candidata (localStorage st) ?key"
    using assms(7-10) d
    by (simp add: candidata_def startsWith_def includes_prefijo_meta includes_prefijo_alias
          truthy_item_def del: drop_append)
  have f: "cargarFallbackLocal ?st3 =
             (Some resultado_fallback,
              ?st3 \<lparr> imagenIndex := new_Map idx, aliasIndex := al, driveTreeVersion := Some ver \<rparr>)"
    using fallback_loop_salta [OF assms(6), of "?key # post" ?st3]
      fallback_loop_candidata [OF c, of idx m al post ?st3] assms(5,9,10,11) d
    by (simp add: cargarFallbackLocal_def l3 del: drop_append)
  have "construirIndiceImagenes w forzar st = descargar_e_instalar w v st2"
    using assms(1-3) by (auto simp: construirIndiceImagenes_def Let_def)
  also have "\<dots> = (resultado_fallback,
              ?st3 \<lparr> imagenIndex := new_Map idx, aliasIndex := al, driveTreeVersion := Some ver \<rparr>)"
    using descargar_falla [OF assms(4), of v] f by simp
  finally show ?thesis by simp
qed

text \<open>
  C6 (the code departs from the claim). After a first build under the version token
  \<^verbatim>\<open>tree_meta_7\<close> the store holds the index of this version and its metadata record, and
  \<^verbatim>\<open>_cargarDesdeCacheLocal\<close> loads this version from it. The next build, forced, cannot
  download the tree; the loop of \<^verbatim>\<open>_cargarFallbackLocal\<close> passes over the key of the index,
  which contains \<^verbatim>\<open>_meta_\<close>, and the build returns a failure where the claim has
  \<^verbatim>\<open>{success: true, fromCache: true, isFallback: true}\<close>. Under the token \<^verbatim>\<open>v1\<close> the same
  two builds end in the fallback result.
\<close>

theorem construirIndiceImagenes_fallback_token_meta:
  "map_of (localStorage (estado_token ''tree_meta_7'')) (CACHE_PREFIX @ ''tree_meta_7'')
     = Some (SPares (nuevoIndice (construir_desde arbol_AB))) \<and>
   map_of (localStorage (estado_token ''tree_meta_7'')) (CACHE_META_PREFIX @ ''tree_meta_7'')
     = Some (SMeta \<lparr> meta_timestamp = 0, meta_version = ''tree_meta_7'', meta_carpetas = 1,
                     meta_archivos = 2 \<rparr>) \<and>
   fst (cargarDesdeCacheLocal (mundo_token ''tree_meta_7'') ''tree_meta_7''
          (estado_token ''tree_meta_7'')) = Some resultado_cache \<and>
   tree_resp (mundo_token ''tree_meta_7'') (count_list (traza (estado_token ''tree_meta_7'')) FetchTree)
     = Throws \<and>
   fst (construirIndiceImagenes (mundo_token ''tree_meta_7'') True (estado_token ''tree_meta_7''))
     = \<lparr> success = False, fromCache = None, isFallback = None, stats = None,
         fallo = Some EnConstruir \<rparr> \<and>
   fst (construirIndiceImagenes (mundo_token ''v1'') True (estado_token ''v1'')) = resultado_fallback"
  by code_simp

text \<open>
  The result of the forced build under the token \<^verbatim>\<open>tree_meta_7\<close> is not a success.
\<close>

theorem construirIndiceImagenes_fallback_token_meta_witness:
  "\<not> success (fst (construirIndiceImagenes (mundo_token ''tree_meta_7'') True
                     (estado_token ''tree_meta_7'')))"
  using construirIndiceImagenes_fallback_token_meta by simp

text \<open>
  Scenario E: the page is loaded again with no network, long after the save; the stored
  version is installed.
\<close>

lemma fallback_escenario_E:
  "tree_resp (mundo_a_las 999999999999) 0 = Throws \<and>
   map fst (localStorage estado_recargado)
     = [''imagenIndex_vv1'', ''imagenIndex_valias_v1'', ''imagenIndex_meta_vv1''] \<and>
   fst (construirIndiceImagenes (mundo_a_las 999999999999) False estado_recargado) = resultado_fallback \<and>
   imagenIndex (snd (construirIndiceImagenes (mundo_a_las 999999999999) False estado_recargado))
     = nuevoIndice (construir_desde arbol_AB)"
  by code_simp

text \<open>
  Two builds, under the tokens \<^verbatim>\<open>X\<close> and then \<^verbatim>\<open>alias_X\<close>: the index of the second is written
  under the key of the aliases of the first. With no network, the fallback installs the
  version \<^verbatim>\<open>X\<close> and, as its aliases, what that key holds.
\<close>

lemma fallback_claves_compartidas:
  "map fst (localStorage estado_dos_versiones)
     = [''imagenIndex_vX'', ''imagenIndex_valias_X'', ''imagenIndex_meta_vX'',
        ''imagenIndex_valias_alias_X'', ''imagenIndex_meta_valias_X''] \<and>
   fst (construirIndiceImagenes mundo_sin_red False
          (estado_vacio \<lparr> localStorage := localStorage estado_dos_versiones \<rparr>)) = resultado_fallback \<and>
   aliasIndex (snd (construirIndiceImagenes mundo_sin_red False
          (estado_vacio \<lparr> localStorage := localStorage estado_dos_versiones \<rparr>)))
     = nuevoIndice (construir_desde arbol_AB) \<and>
   driveTreeVersion (snd (construirIndiceImagenes mundo_sin_red False
          (estado_vacio \<lparr> localStorage := localStorage estado_dos_versiones \<rparr>))) = Some ''X''"
  by code_simp

subsection \<open>Saving the index: no ceiling on the size\<close>

lemma length_json_string: "length s \<le> length (json_string s)"
proof -
  have "length s \<le> length (concat (map json_escape s))"
    by (induction s) (auto simp: json_escape_def)
  then show ?thesis by (simp add: json_string_def)
qed

lemma json_texto_grande:
  "length (img_url img) < length (json_texto (SPares [(k, Archivos [img])]))"
proof -
  have "length (img_url img) \<le> length (json_string (img_url img))" by (rule length_json_string)
  then show ?thesis
    by (cases "img_name img"; cases "img_size img")
       (simp_all add: json_texto_def json_valor_def json_array_def json_imagen_def json_campo_def)
qed

lemma limpiar_nada:
  "\<forall>key m. map_of ls key = Some (SMeta m) \<longrightarrow> ahora - meta_timestamp m \<le> TTL_LIMPIEZA_MS \<Longrightarrow>
   limpiar ahora n ls = ls"
proof (induction n)
  case 0
  then show ?case by simp
next
  case (Suc n)
  have "\<not> ahora - meta_timestamp oldMeta > TTL_LIMPIEZA_MS"
    if "map_option parse_meta (map_of ls key) = Some (Some oldMeta)" for key oldMeta
  proof -
    from that obtain x where x: "map_of ls key = Some x" "parse_meta x = Some oldMeta" by auto
    then have "x = SMeta oldMeta" by (cases x) (auto simp: parse_meta_def)
    with x Suc.prems show ?thesis by fastforce
  qed
  then show ?case using Suc by (auto split: option.splits)
qed

lemma claves_distintas:
  "CACHE_PREFIX @ v \<noteq> CACHE_PREFIX @ ''alias_'' @ v"
  "CACHE_PREFIX @ v \<noteq> CACHE_META_PREFIX @ v"
  "CACHE_PREFIX @ ''alias_'' @ v \<noteq> CACHE_META_PREFIX @ v"
proof -
  have "v \<noteq> ''alias_'' @ v"
  proof
    assume "v = ''alias_'' @ v"
    then have "length v = length (''alias_'' @ v)" by simp
    then show False by simp
  qed
  then show "CACHE_PREFIX @ v \<noteq> CACHE_PREFIX @ ''alias_'' @ v" by simp
  show "CACHE_PREFIX @ v \<noteq> CACHE_META_PREFIX @ v"
    by (simp add: CACHE_PREFIX_def CACHE_META_PREFIX_def)
  show "CACHE_PREFIX @ ''alias_'' @ v \<noteq> CACHE_META_PREFIX @ v"
    by (simp add: CACHE_PREFIX_def CACHE_META_PREFIX_def)
qed

lemma claves_meta_aparte:
  "CACHE_META_PREFIX @ v \<noteq> CACHE_PREFIX @ v'"
  "CACHE_META_PREFIX @ v \<noteq> CACHE_PREFIX @ ''alias_'' @ v'"
  by (simp_all add: CACHE_PREFIX_def CACHE_META_PREFIX_def)

lemma guardar_memoria:
  "imagenIndex (guardarEnCacheLocal w v c a st) = imagenIndex st \<and>
   aliasIndex (guardarEnCacheLocal w v c a st) = aliasIndex st \<and>
   driveTreeVersion (guardarEnCacheLocal w v c a st) = driveTreeVersion st"
  by (simp add: guardarEnCacheLocal_def date_now_def emitir_def Let_def split: option.splits)

lemma guardar_unknown: "guardarEnCacheLocal w ''unknown'' c a st = st"
  by (simp add: guardarEnCacheLocal_def)

lemma guardar_casos:
  assumes "v \<noteq> ''unknown''"
    and "p1 = SPares (imagenIndex st)"
    and "p2 = SPares (aliasIndex st)"
    and "n = count_list (traza st) DateNow"
    and "p3 = SMeta \<lparr> meta_timestamp = clock w n, meta_version = v, meta_carpetas = c,
                       meta_archivos = a \<rparr>"
    and "ls1 = map_set (CACHE_PREFIX @ v) p1 (localStorage st)"
    and "ls2 = map_set (CACHE_PREFIX @ ''alias_'' @ v) p2 ls1"
    and "ls3 = map_set (CACHE_META_PREFIX @ v) p3 ls2"
    and "r = guardarEnCacheLocal w v c a st"
  shows "\<not> quota_ok w (localStorage st) (CACHE_PREFIX @ v) p1 \<Longrightarrow>
           localStorage r = localStorage st \<and> traza r = traza st @ [Warn EnGuardar]"
    and "quota_ok w (localStorage st) (CACHE_PREFIX @ v) p1 \<Longrightarrow>
         \<not> quota_ok w ls1 (CACHE_PREFIX @ ''alias_'' @ v) p2 \<Longrightarrow>
           localStorage r = ls1 \<and> traza r = traza st @ [Warn EnGuardar]"
    and "quota_ok w (localStorage st) (CACHE_PREFIX @ v) p1 \<Longrightarrow>
         quota_ok w ls1 (CACHE_PREFIX @ ''alias_'' @ v) p2 \<Longrightarrow>
         \<not> quota_ok w ls2 (CACHE_META_PREFIX @ v) p3 \<Longrightarrow>
           localStorage r = ls2 \<and> traza r = traza st @ [DateNow, Warn EnGuardar]"
    and "quota_ok w (localStorage st) (CACHE_PREFIX @ v) p1 \<Longrightarrow>
         quota_ok w ls1 (CACHE_PREFIX @ ''alias_'' @ v) p2 \<Longrightarrow>
         quota_ok w ls2 (CACHE_META_PREFIX @ v) p3 \<Longrightarrow>
           localStorage r = limpiar (clock w (Suc n)) (length ls3) ls3 \<and>
           traza r = traza st @ [DateNow, DateNow]"
  using assms
  by (simp_all add: guardarEnCacheLocal_def setItem_def date_now_def emitir_def Let_def)

lemma tres_cargas:
  assumes "ls1 = map_set (CACHE_PREFIX @ v) p1 ls"
    and "ls2 = map_set (CACHE_PREFIX @ ''alias_'' @ v) p2 ls1"
    and "ls3 = map_set (CACHE_META_PREFIX @ v) p3 ls2"
  shows "map_of ls3 (CACHE_PREFIX @ v) = Some p1 \<and>
         map_of ls3 (CACHE_PREFIX @ ''alias_'' @ v) = Some p2 \<and>
         map_of ls3 (CACHE_META_PREFIX @ v) = Some p3"
  using assms claves_distintas [of v] by (simp add: map_of_map_set)

lemma construir_descarga:
  assumes "obtener_version w (emitir (Construir forzar) st) = (v, st1)"
    and "forzar \<or> driveTreeVersion st1 \<noteq> Some v \<or> imagenIndex st1 = []"
    and "(if \<not> forzar \<and> v \<noteq> ''unknown'' then cargarDesdeCacheLocal w v st1 else (None, st1))
           = (None, st2)"
    and "tree_resp w (count_list (traza st2) FetchTree) = Ok d"
  shows "construirIndiceImagenes w forzar st =
           (\<lparr> success = True, fromCache = Some False, isFallback = None,
               stats = Some (totalCarpetas (construir_desde d), totalArchivos (construir_desde d)),
               fallo = None \<rparr>,
            guardarEnCacheLocal w v (totalCarpetas (construir_desde d))
              (totalArchivos (construir_desde d))
              (emitir FetchTree st2 \<lparr> imagenIndex := nuevoIndice (construir_desde d),
                                       aliasIndex := nuevoAlias (construir_desde d),
                                       driveTreeVersion := Some v \<rparr>))"
proof -
  have "construirIndiceImagenes w forzar st = descargar_e_instalar w v st2"
    using assms(1-3) by (auto simp: construirIndiceImagenes_def Let_def)
  then show ?thesis
    using assms(4) by (simp add: descargar_e_instalar_def fetch_tree_def Let_def)
qed

lemma localStorage_hasta_descarga:
  assumes "obtener_version w (emitir (Construir forzar) st) = (v, st1)"
    and "(if \<not> forzar \<and> v \<noteq> ''unknown'' then cargarDesdeCacheLocal w v st1 else (None, st1))
           = (None, st2)"
  shows "localStorage st2 = localStorage st"
proof -
  have l1: "localStorage st1 = localStorage st"
    using localStorage_obtener_version [of w "emitir (Construir forzar) st"] assms(1)
    by (simp add: emitir_def)
  show ?thesis
  proof (cases "\<not> forzar \<and> v \<noteq> ''unknown''")
    case True
    then have "cargarDesdeCacheLocal w v st1 = (None, st2)" using assms(2) by simp
    then show ?thesis using localStorage_cargarDesdeCacheLocal [of w v st1] l1 by simp
  next
    case False
    then show ?thesis using assms(2) l1 by auto
  qed
qed

lemma construir_forzado:
  assumes "obtener_version w (emitir (Construir True) st) = (v, st1)"
    and "tree_resp w (count_list (traza st1) FetchTree) = Ok d"
  shows "construirIndiceImagenes w True st =
           (\<lparr> success = True, fromCache = Some False, isFallback = None,
               stats = Some (totalCarpetas (construir_desde d), totalArchivos (construir_desde d)),
               fallo = None \<rparr>,
            guardarEnCacheLocal w v (totalCarpetas (construir_desde d))
              (totalArchivos (construir_desde d))
              (emitir FetchTree st1 \<lparr> imagenIndex := nuevoIndice (construir_desde d),
                                       aliasIndex := nuevoAlias (construir_desde d),
                                       driveTreeVersion := Some v \<rparr>))"
  using construir_descarga [of w True st v st1 st1 d] assms by simp

lemma construir_persiste:
  assumes "obtener_version w (emitir (Construir True) st) = (v, st1)"
    and "tree_resp w (count_list (traza st1) FetchTree) = Ok d"
    and "v \<noteq> ''unknown''"
    and "\<forall>ls k x. quota_ok w ls k x"
    and "n = count_list (traza st1) DateNow"
    and "clock w (Suc n) - clock w n \<le> TTL_LIMPIEZA_MS"
    and "\<forall>key m. map_of (localStorage st) key = Some (SMeta m) \<longrightarrow>
            clock w (Suc n) - meta_timestamp m \<le> TTL_LIMPIEZA_MS"
  shows "map_of (localStorage (snd (construirIndiceImagenes w True st))) (CACHE_PREFIX @ v)
           = Some (SPares (nuevoIndice (construir_desde d)))"
proof -
  let ?b = "construir_desde d"
  let ?st2 = "emitir FetchTree st1 \<lparr> imagenIndex := nuevoIndice ?b, aliasIndex := nuevoAlias ?b,
                                     driveTreeVersion := Some v \<rparr>"
  let ?p3 = "SMeta \<lparr> meta_timestamp = clock w n, meta_version = v,
                      meta_carpetas = totalCarpetas ?b, meta_archivos = totalArchivos ?b \<rparr>"
  let ?ls1 = "map_set (CACHE_PREFIX @ v) (SPares (nuevoIndice ?b)) (localStorage st)"
  let ?ls2 = "map_set (CACHE_PREFIX @ ''alias_'' @ v) (SPares (nuevoAlias ?b)) ?ls1"
  let ?ls3 = "map_set (CACHE_META_PREFIX @ v) ?p3 ?ls2"
  have l: "localStorage ?st2 = localStorage st"
    using localStorage_obtener_version [of w "emitir (Construir True) st"] assms(1)
    by (simp add: emitir_def)
  have c: "count_list (traza ?st2) DateNow = n" using assms(5) by (simp add: emitir_def)
  have e: "\<forall>key m. map_of ?ls3 key = Some (SMeta m) \<longrightarrow>
             clock w (Suc n) - meta_timestamp m \<le> TTL_LIMPIEZA_MS"
    using assms(6,7) by (auto simp: map_of_map_set split: if_splits)
  have "localStorage (guardarEnCacheLocal w v (totalCarpetas ?b) (totalArchivos ?b) ?st2)
          = limpiar (clock w (Suc n)) (length ?ls3) ?ls3"
    using guardar_casos(4) [where v = v and st = ?st2 and w = w and n = n
        and c = "totalCarpetas ?b" and a = "totalArchivos ?b", OF assms(3) refl refl _ refl refl refl refl refl]
      assms(4) c l by simp
  also have "\<dots> = ?ls3" by (rule limpiar_nada [OF e])
  finally show ?thesis
    using construir_forzado [OF assms(1,2)] claves_distintas [of v]
    by (simp add: map_of_map_set)
qed

text \<open>
  C8 (as amended). The save measures nothing: no hypothesis below bears on the size of a
  payload. Let a build, forced or not, get as far as the download of the tree (the version
  held differs from the one read or the index is empty, and the cache of that version is
  not loaded), and let the download succeed. Then the build returns a successful result
  and the whole index, the aliases and the version are in memory, whatever the store does.
  As for the store and the log: under the version \<^verbatim>\<open>unknown\<close> the save attempts no write
  and logs nothing; otherwise it writes the index, the aliases and the metadata record in
  this order, and the first write that the browser refuses ends the save with a warning,
  what was written before staying in the store; when the three writes are let through, the
  three payloads are in the store, the cleanup runs, and the store is left so when no
  metadata record is older than seven days.
\<close>

theorem guardar_sin_tope:
  assumes "obtener_version w (emitir (Construir forzar) st) = (v, st1)"
    and "forzar \<or> driveTreeVersion st1 \<noteq> Some v \<or> imagenIndex st1 = []"
    and "(if \<not> forzar \<and> v \<noteq> ''unknown'' then cargarDesdeCacheLocal w v st1 else (None, st1))
           = (None, st2)"
    and "tree_resp w (count_list (traza st2) FetchTree) = Ok d"
    and "b = construir_desde d"
    and "r = construirIndiceImagenes w forzar st"
    and "n = count_list (traza st2) DateNow"
    and "k1 = CACHE_PREFIX @ v" and "p1 = SPares (nuevoIndice b)"
    and "k2 = CACHE_PREFIX @ ''alias_'' @ v" and "p2 = SPares (nuevoAlias b)"
    and "k3 = CACHE_META_PREFIX @ v"
    and "p3 = SMeta \<lparr> meta_timestamp = clock w n, meta_version = v,
                       meta_carpetas = totalCarpetas b, meta_archivos = totalArchivos b \<rparr>"
    and "ls1 = map_set k1 p1 (localStorage st)"
    and "ls2 = map_set k2 p2 ls1"
    and "ls3 = map_set k3 p3 ls2"
  shows "fst r = \<lparr> success = True, fromCache = Some False, isFallback = None,
                   stats = Some (totalCarpetas b, totalArchivos b), fallo = None \<rparr> \<and>
         imagenIndex (snd r) = nuevoIndice b \<and> aliasIndex (snd r) = nuevoAlias b \<and>
         driveTreeVersion (snd r) = Some v \<and>
         (v = ''unknown'' \<longrightarrow>
            localStorage (snd r) = localStorage st \<and> traza (snd r) = traza st2 @ [FetchTree]) \<and>
         (v \<noteq> ''unknown'' \<and> \<not> quota_ok w (localStorage st) k1 p1 \<longrightarrow>
            localStorage (snd r) = localStorage st \<and>
            traza (snd r) = traza st2 @ [FetchTree, Warn EnGuardar]) \<and>
         (v \<noteq> ''unknown'' \<and> quota_ok w (localStorage st) k1 p1 \<and> \<not> quota_ok w ls1 k2 p2 \<longrightarrow>
            localStorage (snd r) = ls1 \<and>
            traza (snd r) = traza st2 @ [FetchTree, Warn EnGuardar]) \<and>
         (v \<noteq> ''unknown'' \<and> quota_ok w (localStorage st) k1 p1 \<and> quota_ok w ls1 k2 p2 \<and>
          \<not> quota_ok w ls2 k3 p3 \<longrightarrow>
            localStorage (snd r) = ls2 \<and>
            traza (snd r) = traza st2 @ [FetchTree, DateNow, Warn EnGuardar]) \<and>
         (v \<noteq> ''unknown'' \<and> quota_ok w (localStorage st) k1 p1 \<and> quota_ok w ls1 k2 p2 \<and>
          quota_ok w ls2 k3 p3 \<longrightarrow>
            map_of ls3 k1 = Some p1 \<and> map_of ls3 k2 = Some p2 \<and> map_of ls3 k3 = Some p3 \<and>
            localStorage (snd r) = limpiar (clock w (Suc n)) (length ls3) ls3 \<and>
            traza (snd r) = traza st2 @ [FetchTree, DateNow, DateNow] \<and>
            ((\<forall>key m. map_of ls3 key = Some (SMeta m) \<longrightarrow>
                 clock w (Suc n) - meta_timestamp m \<le> TTL_LIMPIEZA_MS) \<longrightarrow>
               localStorage (snd r) = ls3))"
proof -
  let ?st3 = "emitir FetchTree st2 \<lparr> imagenIndex := nuevoIndice b, aliasIndex := nuevoAlias b,
                                     driveTreeVersion := Some v \<rparr>"
  let ?g = "guardarEnCacheLocal w v (totalCarpetas b) (totalArchivos b) ?st3"
  have r: "r = (\<lparr> success = True, fromCache = Some False, isFallback = None,
                  stats = Some (totalCarpetas b, totalArchivos b), fallo = None \<rparr>, ?g)"
    using construir_descarga [OF assms(1-4)] assms(5,6) by simp
  have l: "localStorage ?st3 = localStorage st"
    using localStorage_hasta_descarga [OF assms(1,3)] by (simp add: emitir_def)
  have t: "traza ?st3 = traza st2 @ [FetchTree]" by (simp add: emitir_def)
  have c: "count_list (traza ?st3) DateNow = n" using assms(7) by (simp add: emitir_def)
  have i: "imagenIndex ?st3 = nuevoIndice b" "aliasIndex ?st3 = nuevoAlias b" by simp_all
  note g = guardar_casos [where v = v and st = ?st3 and w = w and n = n and r = ?g
        and c = "totalCarpetas b" and a = "totalArchivos b" and ?p1.0 = p1 and ?p2.0 = p2
        and ?p3.0 = p3 and ?ls1.0 = ls1 and ?ls2.0 = ls2 and ?ls3.0 = ls3]
  have q1: "fst r = \<lparr> success = True, fromCache = Some False, isFallback = None,
                   stats = Some (totalCarpetas b, totalArchivos b), fallo = None \<rparr>"
    using r by simp
  have q2: "imagenIndex (snd r) = nuevoIndice b \<and> aliasIndex (snd r) = nuevoAlias b \<and>
         driveTreeVersion (snd r) = Some v"
    using r guardar_memoria [of w v "totalCarpetas b" "totalArchivos b" ?st3] by simp
  have q3: "v = ''unknown'' \<longrightarrow>
            localStorage (snd r) = localStorage st \<and> traza (snd r) = traza st2 @ [FetchTree]"
    using r l t guardar_unknown [of w "totalCarpetas b" "totalArchivos b" ?st3] by auto
  have h: "v \<noteq> ''unknown'' \<Longrightarrow> p1 = SPares (imagenIndex ?st3) \<and> p2 = SPares (aliasIndex ?st3) \<and>
             n = count_list (traza ?st3) DateNow \<and>
             ls1 = map_set (CACHE_PREFIX @ v) p1 (localStorage ?st3)"
    using assms(8-16) c l i by simp
  have q4: "v \<noteq> ''unknown'' \<and> \<not> quota_ok w (localStorage st) k1 p1 \<longrightarrow>
            localStorage (snd r) = localStorage st \<and>
            traza (snd r) = traza st2 @ [FetchTree, Warn EnGuardar]"
    using g(1) h r l t assms(8-16) by auto
  have q5: "v \<noteq> ''unknown'' \<and> quota_ok w (localStorage st) k1 p1 \<and> \<not> quota_ok w ls1 k2 p2 \<longrightarrow>
            localStorage (snd r) = ls1 \<and>
            traza (snd r) = traza st2 @ [FetchTree, Warn EnGuardar]"
    using g(2) h r l t assms(8-16) by auto
  have q6: "v \<noteq> ''unknown'' \<and> quota_ok w (localStorage st) k1 p1 \<and> quota_ok w ls1 k2 p2 \<and>
          \<not> quota_ok w ls2 k3 p3 \<longrightarrow>
            localStorage (snd r) = ls2 \<and>
            traza (snd r) = traza st2 @ [FetchTree, DateNow, Warn EnGuardar]"
    using g(3) h r l t assms(8-16) by auto
  have q7: "v \<noteq> ''unknown'' \<and> quota_ok w (localStorage st) k1 p1 \<and> quota_ok w ls1 k2 p2 \<and>
          quota_ok w ls2 k3 p3 \<longrightarrow>
            localStorage (snd r) = limpiar (clock w (Suc n)) (length ls3) ls3 \<and>
            traza (snd r) = traza st2 @ [FetchTree, DateNow, DateNow]"
    using g(4) h r l t assms(8-16) by auto
  have q8: "map_of ls3 k1 = Some p1 \<and> map_of ls3 k2 = Some p2 \<and> map_of ls3 k3 = Some p3"
    using tres_cargas [of ls1 v p1 "localStorage st" ls2 p2 ls3 p3] assms(8-16) by simp
  have q9: "(\<forall>key m. map_of ls3 key = Some (SMeta m) \<longrightarrow>
                 clock w (Suc n) - meta_timestamp m \<le> TTL_LIMPIEZA_MS) \<longrightarrow>
            limpiar (clock w (Suc n)) (length ls3) ls3 = ls3"
    using limpiar_nada [of ls3 "clock w (Suc n)" "length ls3"] by blast
  from q1 q2 q3 q4 q5 q6 q7 q8 q9 show ?thesis by simp
qed

text \<open>
  Three builds from the module as loaded. The browser refuses every write: the build
  succeeds, the index is in memory, the store stays empty and a warning is logged. The
  browser refuses the metadata record only: the index and the aliases stay in the store.
  The version cannot be read: nothing is written and no warning is logged.
\<close>

theorem guardar_sin_tope_witness:
  "fst (construirIndiceImagenes (mundo_lleno arbol_AB) True estado_vacio)
     = \<lparr> success = True, fromCache = Some False, isFallback = None, stats = Some (1, 2),
         fallo = None \<rparr> \<and>
   imagenIndex (snd (construirIndiceImagenes (mundo_lleno arbol_AB) True estado_vacio))
     = nuevoIndice (construir_desde arbol_AB) \<and>
   localStorage (snd (construirIndiceImagenes (mundo_lleno arbol_AB) True estado_vacio)) = [] \<and>
   traza (snd (construirIndiceImagenes (mundo_lleno arbol_AB) True estado_vacio))
     = [Construir True, FetchVersion, FetchTree, Warn EnGuardar] \<and>
   localStorage (snd (construirIndiceImagenes (mundo_sin_sitio_meta arbol_AB) False estado_vacio))
     = [(''imagenIndex_vv1'', SPares (nuevoIndice (construir_desde arbol_AB))),
        (''imagenIndex_valias_v1'', SPares (nuevoAlias (construir_desde arbol_AB)))] \<and>
   traza (snd (construirIndiceImagenes (mundo_sin_sitio_meta arbol_AB) False estado_vacio))
     = [Construir False, FetchVersion, FetchTree, DateNow, Warn EnGuardar] \<and>
   fst (construirIndiceImagenes (mundo_sin_version arbol_AB) False estado_vacio)
     = \<lparr> success = True, fromCache = Some False, isFallback = None, stats = Some (1, 2),
         fallo = None \<rparr> \<and>
   localStorage (snd (construirIndiceImagenes (mundo_sin_version arbol_AB) False estado_vacio)) = [] \<and>
   traza (snd (construirIndiceImagenes (mundo_sin_version arbol_AB) False estado_vacio))
     = [Construir False, FetchVersion, Warn EnVersion, FetchTree]"
proof -
  let ?b = "construir_desde arbol_AB"
  have s: "totalCarpetas ?b = 1 \<and> totalArchivos ?b = 2" by code_simp
  have e: "localStorage estado_vacio = []" by code_simp
  \<comment> \<open>every write refused\<close>
  let ?w = "mundo_lleno arbol_AB"
  let ?st1 = "emitir FetchVersion (emitir (Construir True) estado_vacio)"
  have a1: "obtener_version ?w (emitir (Construir True) estado_vacio) = (''v1'', ?st1)" by code_simp
  have a2: "True \<or> driveTreeVersion ?st1 \<noteq> Some ''v1'' \<or> imagenIndex ?st1 = []" by simp
  have a3: "(if \<not> True \<and> ''v1'' \<noteq> ''unknown'' then cargarDesdeCacheLocal ?w ''v1'' ?st1
             else (None, ?st1)) = (None, ?st1)" by simp
  have a4: "tree_resp ?w (count_list (traza ?st1) FetchTree) = Ok arbol_AB" by code_simp
  have a5: "''v1'' \<noteq> ''unknown'' \<and>
            \<not> quota_ok ?w (localStorage estado_vacio) (CACHE_PREFIX @ ''v1'') (SPares (nuevoIndice ?b))"
    by (simp add: mundo_lleno_def)
  have a6: "traza ?st1 @ [FetchTree, Warn EnGuardar]
              = [Construir True, FetchVersion, FetchTree, Warn EnGuardar]" by code_simp
  note t1 = guardar_sin_tope [OF a1 a2 a3 a4 refl refl refl refl refl refl refl refl refl refl refl refl]
  have r1: "fst (construirIndiceImagenes ?w True estado_vacio)
     = \<lparr> success = True, fromCache = Some False, isFallback = None, stats = Some (1, 2),
         fallo = None \<rparr>"
    using t1 [THEN conjunct1] s by simp
  have r2: "imagenIndex (snd (construirIndiceImagenes ?w True estado_vacio)) = nuevoIndice ?b"
    using t1 [THEN conjunct2, THEN conjunct1] by simp
  have r3: "localStorage (snd (construirIndiceImagenes ?w True estado_vacio)) = [] \<and>
            traza (snd (construirIndiceImagenes ?w True estado_vacio))
              = [Construir True, FetchVersion, FetchTree, Warn EnGuardar]"
    using t1 [THEN conjunct2, THEN conjunct2, THEN conjunct2, THEN conjunct2, THEN conjunct2,
              THEN conjunct1] a5 a6 e by simp
  \<comment> \<open>the metadata record refused\<close>
  let ?w2 = "mundo_sin_sitio_meta arbol_AB"
  let ?su1 = "emitir FetchVersion (emitir (Construir False) estado_vacio)"
  let ?k1 = "CACHE_PREFIX @ ''v1''"
  let ?k2 = "CACHE_PREFIX @ ''alias_'' @ ''v1''"
  let ?k3 = "CACHE_META_PREFIX @ ''v1''"
  let ?ls1 = "map_set ?k1 (SPares (nuevoIndice ?b)) (localStorage estado_vacio)"
  let ?ls2 = "map_set ?k2 (SPares (nuevoAlias ?b)) ?ls1"
  have b1: "obtener_version ?w2 (emitir (Construir False) estado_vacio) = (''v1'', ?su1)" by code_simp
  have b2: "False \<or> driveTreeVersion ?su1 \<noteq> Some ''v1'' \<or> imagenIndex ?su1 = []" by code_simp
  have b3: "(if \<not> False \<and> ''v1'' \<noteq> ''unknown'' then cargarDesdeCacheLocal ?w2 ''v1'' ?su1
             else (None, ?su1)) = (None, ?su1)" by code_simp
  have b4: "tree_resp ?w2 (count_list (traza ?su1) FetchTree) = Ok arbol_AB" by code_simp
  have k: "startsWith ?k3 CACHE_META_PREFIX" "\<not> startsWith ?k1 CACHE_META_PREFIX"
    "\<not> startsWith ?k2 CACHE_META_PREFIX" by code_simp+
  have b5: "''v1'' \<noteq> ''unknown'' \<and>
            quota_ok ?w2 (localStorage estado_vacio) ?k1 (SPares (nuevoIndice ?b)) \<and>
            quota_ok ?w2 ?ls1 ?k2 (SPares (nuevoAlias ?b)) \<and>
            \<not> quota_ok ?w2 ?ls2 ?k3
                (SMeta \<lparr> meta_timestamp = clock ?w2 (count_list (traza ?su1) DateNow),
                         meta_version = ''v1'', meta_carpetas = totalCarpetas ?b,
                         meta_archivos = totalArchivos ?b \<rparr>)"
    using k by (simp add: mundo_sin_sitio_meta_def)
  have b6: "?ls2 = [(''imagenIndex_vv1'', SPares (nuevoIndice ?b)),
                    (''imagenIndex_valias_v1'', SPares (nuevoAlias ?b))]" by code_simp
  have b7: "traza ?su1 @ [FetchTree, DateNow, Warn EnGuardar]
              = [Construir False, FetchVersion, FetchTree, DateNow, Warn EnGuardar]" by code_simp
  note t2 = guardar_sin_tope [OF b1 b2 b3 b4 refl refl refl refl refl refl refl refl refl refl refl refl]
  have r4: "localStorage (snd (construirIndiceImagenes ?w2 False estado_vacio)) = ?ls2 \<and>
            traza (snd (construirIndiceImagenes ?w2 False estado_vacio))
              = traza ?su1 @ [FetchTree, DateNow, Warn EnGuardar]"
    using t2 [THEN conjunct2, THEN conjunct2, THEN conjunct2, THEN conjunct2, THEN conjunct2,
              THEN conjunct2, THEN conjunct2, THEN conjunct1] b5 by blast
  \<comment> \<open>the version unknown\<close>
  let ?w3 = "mundo_sin_version arbol_AB"
  let ?sv1 = "emitir (Warn EnVersion) (emitir FetchVersion (emitir (Construir False) estado_vacio))"
  have c1: "obtener_version ?w3 (emitir (Construir False) estado_vacio) = (''unknown'', ?sv1)"
    by code_simp
  have c2: "False \<or> driveTreeVersion ?sv1 \<noteq> Some ''unknown'' \<or> imagenIndex ?sv1 = []" by code_simp
  have c3: "(if \<not> False \<and> ''unknown'' \<noteq> ''unknown'' then cargarDesdeCacheLocal ?w3 ''unknown'' ?sv1
             else (None, ?sv1)) = (None, ?sv1)" by simp
  have c4: "tree_resp ?w3 (count_list (traza ?sv1) FetchTree) = Ok arbol_AB" by code_simp
  have c5: "traza ?sv1 @ [FetchTree] = [Construir False, FetchVersion, Warn EnVersion, FetchTree]"
    by code_simp
  note t3 = guardar_sin_tope [OF c1 c2 c3 c4 refl refl refl refl refl refl refl refl refl refl refl refl]
  have r5: "fst (construirIndiceImagenes ?w3 False estado_vacio)
     = \<lparr> success = True, fromCache = Some False, isFallback = None, stats = Some (1, 2),
         fallo = None \<rparr>"
    using t3 [THEN conjunct1] s by simp
  have r6: "localStorage (snd (construirIndiceImagenes ?w3 False estado_vacio)) = [] \<and>
            traza (snd (construirIndiceImagenes ?w3 False estado_vacio))
              = [Construir False, FetchVersion, Warn EnVersion, FetchTree]"
    using t3 [THEN conjunct2, THEN conjunct2, THEN conjunct2, THEN conjunct2, THEN conjunct1]
      c5 e by simp
  from r1 r2 r3 r4 r5 r6 b6 b7 show ?thesis by simp
qed

lemma indice_grande:
  "nuevoIndice (construir_desde arbol_grande)
     = [(''i-01-002-03'', Archivos [imagen_de (replicate 5000000 CHR ''a'')])]"
  by (simp add: construir_desde_def arbol_grande_def arbol_simple_def procesar_nodo_def
        procesar_carpeta_def clave_de_def archivo_de_def archivo_simple_def nullish_or_def
        truthy_def construccion_vacia_def imagen_de_def Let_def)

text \<open>
  C8 as stated fails: the text of this index has more than five million characters, which is
  above 4.5 MB however it is counted, and the build stores it.
\<close>

theorem guardar_sin_tope_counterexample:
  "5000000 < length (json_texto (SPares (nuevoIndice (construir_desde arbol_grande)))) \<and>
   map_of (localStorage (snd (construirIndiceImagenes (mundo_estable arbol_grande) True estado_vacio)))
     (CACHE_PREFIX @ ''v1'') = Some (SPares (nuevoIndice (construir_desde arbol_grande)))"
proof -
  let ?w = "mundo_estable arbol_grande"
  let ?st1 = "emitir FetchVersion (emitir (Construir True) estado_vacio)"
  have h1: "obtener_version ?w (emitir (Construir True) estado_vacio) = (''v1'', ?st1)"
    by (simp add: obtener_version_def fetch_version_def mundo_estable_def emitir_def
          estado_vacio_def estado_con_def o_bien_def truthy_def)
  have h2: "tree_resp ?w (count_list (traza ?st1) FetchTree) = Ok arbol_grande"
    by (simp add: mundo_estable_def)
  have h3: "''v1'' \<noteq> ''unknown''" by simp
  have h4: "\<forall>ls k x. quota_ok ?w ls k x" by (simp add: mundo_estable_def)
  have h6: "clock ?w (Suc (count_list (traza ?st1) DateNow)) - clock ?w (count_list (traza ?st1) DateNow)
              \<le> TTL_LIMPIEZA_MS"
    by (simp add: mundo_estable_def TTL_LIMPIEZA_MS_def)
  have h7: "\<forall>key m. map_of (localStorage estado_vacio) key = Some (SMeta m) \<longrightarrow>
              clock ?w (Suc (count_list (traza ?st1) DateNow)) - meta_timestamp m \<le> TTL_LIMPIEZA_MS"
    by (simp add: estado_vacio_def estado_con_def)
  have g: "5000000 < length (json_texto (SPares (nuevoIndice (construir_desde arbol_grande))))"
    using json_texto_grande [of "imagen_de (replicate 5000000 CHR ''a'')" "''i-01-002-03''"]
    by (simp add: indice_grande imagen_de_def)
  from construir_persiste [OF h1 h2 h3 h4 refl h6 h7] g show ?thesis by simp
qed

subsection \<open>The whole lookup\<close>

lemma buscarImagenesLocales_vacio:
  assumes "local_resp w (length (filter es_FetchLocal (traza st))) c = Throws \<or>
           local_resp w (length (filter es_FetchLocal (traza st))) c = NotOk \<or>
           local_resp w (length (filter es_FetchLocal (traza st))) c = Ok []"
  shows "buscarImagenesLocales w c st = ([], emitir (FetchLocal c) st)"
  using assms by (auto simp: buscarImagenesLocales_def fetch_local_def)

lemma buscarImagenesLocales_nada:
  assumes "\<forall>n. local_resp w n c = Throws \<or> local_resp w n c = NotOk \<or> local_resp w n c = Ok []"
  shows "fst (buscarImagenesLocales w c st) = [] \<and>
         traza (snd (buscarImagenesLocales w c st)) = traza st @ [FetchLocal c]"
  using buscarImagenesLocales_vacio [of w st c] assms by (simp add: emitir_def)

lemma urls_de_None: "urls_de v = None \<longleftrightarrow> (\<forall>a. v \<noteq> Archivos a)"
  by (cases v) (simp_all add: urls_de_def)

lemma findImageUrls_termina_en_local:
  assumes "q = toLowerCase (trim clave)"
    and "ini = (if imagenIndex st = []
                then (let (r, s) = construirIndiceImagenes w False st in (success r, s))
                else (True, st))"
    and "listo = fst ini" and "st1 = snd ini"
    and "p = fst (busquedaParcial q st1)" and "st2 = snd (busquedaParcial q st1)"
    and "act = fst (verificarActualizacionIndice w st2)"
    and "st3 = snd (verificarActualizacionIndice w st2)"
    and "st4 = snd (construirIndiceImagenes w True st3)"
    and "q \<noteq> [] \<and> listo \<longrightarrow> (\<forall>a. exacta (imagenIndex st1) q \<noteq> Some (Archivos a))"
    and "q \<noteq> [] \<and> listo \<and> exacta (imagenIndex st1) q = None \<longrightarrow>
           (\<forall>a. desde_alias st1 q \<noteq> Some (Archivos a))"
    and "q \<noteq> [] \<and> listo \<and> exacta (imagenIndex st1) q = None \<and> desde_alias st1 q = None \<longrightarrow>
           p = Some [] \<or> p = None"
    and "q \<noteq> [] \<and> listo \<and> exacta (imagenIndex st1) q = None \<and> desde_alias st1 q = None \<and>
         p = Some [] \<and> fst act \<longrightarrow>
           (\<forall>a. exacta (imagenIndex st4) q \<noteq> Some (Archivos a))"
  shows "\<exists>s. findImageUrls w clave st = buscarImagenesLocales w q s"
proof (cases "q = []")
  case True
  then have t: "toLowerCase (trim clave) = []" using assms(1) by simp
  have "findImageUrls w clave st = buscarImagenesLocales w [] st"
    by (simp add: findImageUrls_def findImageUrls_try_def t split: prod.splits)
  then show ?thesis using True by auto
next
  case False
  note q = False
  note c = assms(1) [symmetric]
  have i: "(if imagenIndex st = []
            then (let (r, s) = construirIndiceImagenes w False st in (success r, s))
            else (True, st)) = (listo, st1)"
    using assms(2-4) by simp
  show ?thesis
  proof (cases listo)
    case False
    have "findImageUrls w clave st = buscarImagenesLocales w q st1"
      using q i False by (simp add: findImageUrls_def findImageUrls_try_def c split: prod.splits)
    then show ?thesis by blast
  next
    case True
    note l = True
    show ?thesis
    proof (cases "exacta (imagenIndex st1) q")
      case (Some v)
      then have "urls_de v = None" using assms(10) q l by (simp add: urls_de_None)
      then have "findImageUrls w clave st =
                   buscarImagenesLocales w q (emitir (Warn EnBusqueda) (emitir (LogExacta (largo v)) st1))"
        using q i l Some by (simp add: findImageUrls_def findImageUrls_try_def c)
      then show ?thesis by blast
    next
      case None
      note e = None
      show ?thesis
      proof (cases "desde_alias st1 q")
        case (Some v)
        then have "urls_de v = None" using assms(11) q l e by (simp add: urls_de_None)
        then have "findImageUrls w clave st =
                     buscarImagenesLocales w q (emitir (Warn EnBusqueda) (emitir (LogAlias (largo v)) st1))"
          using q i l e Some by (simp add: findImageUrls_def findImageUrls_try_def c)
        then show ?thesis by blast
      next
        case None
        note d = None
        have bp: "busquedaParcial q st1 = (p, st2)" using assms(5,6) by simp
        from assms(12) q l e d consider "p = None" | "p = Some []" by blast
        then show ?thesis
        proof cases
          case 1
          have "findImageUrls w clave st = buscarImagenesLocales w q (emitir (Warn EnBusqueda) st2)"
            using q i l e d bp 1 by (simp add: findImageUrls_def findImageUrls_try_def c)
          then show ?thesis by blast
        next
          case 2
          note pv = 2
          have va: "verificarActualizacionIndice w st2 = (act, st3)" using assms(7,8) by simp
          show ?thesis
          proof (cases "fst act")
            case False
            have "findImageUrls w clave st = buscarImagenesLocales w q st3"
              using q i l e d bp pv va False
              by (simp add: findImageUrls_def findImageUrls_try_def c split: prod.splits)
            then show ?thesis by blast
          next
            case True
            note n = True
            obtain r where ci: "construirIndiceImagenes w True st3 = (r, st4)"
              using assms(9) by (cases "construirIndiceImagenes w True st3") simp
            show ?thesis
            proof (cases "exacta (imagenIndex st4) q")
              case None
              have "findImageUrls w clave st = buscarImagenesLocales w q st4"
                using q i l e d bp pv va n ci None
                by (simp add: findImageUrls_def findImageUrls_try_def c split: prod.splits)
              then show ?thesis by blast
            next
              case (Some v)
              then have "urls_de v = None"
                using assms(13) q l e d pv n by (simp add: urls_de_None)
              then have "findImageUrls w clave st =
                           buscarImagenesLocales w q (emitir (Warn EnBusqueda) st4)"
                using q i l e d bp pv va n ci Some
                by (simp add: findImageUrls_def findImageUrls_try_def c)
              then show ?thesis by blast
            qed
          qed
        qed
      qed
    qed
  qed
qed

text \<open>
  C5. Let \<open>q\<close> be the key, trimmed and in lower case, and let the local endpoint, whenever
  it is asked for \<open>q\<close>, fail, answer with an error status or answer with an empty list.
  Let every step on the index that the call reaches miss: the exact match finds no list of
  images under \<open>q\<close>, nor does the alias, the partial search returns the empty list (or
  raises), and when the server has another version, the exact match on the rebuilt index
  finds no list of images either. Then \<^verbatim>\<open>findImageUrls\<close> returns the empty list, and the last
  thing it did was to ask the local endpoint for \<open>q\<close>. This holds for the empty key, for a
  first build that fails, and when a step raises (a value found is a string, which has a
  length and no \<^verbatim>\<open>map\<close>): the \<^verbatim>\<open>catch\<close> of \<^verbatim>\<open>findImageUrls\<close> then asks the local endpoint,
  whose own \<^verbatim>\<open>catch\<close> returns the empty list.
\<close>

theorem findImageUrls_sin_resultado:
  assumes "q = toLowerCase (trim clave)"
    and "\<forall>n. local_resp w n q = Throws \<or> local_resp w n q = NotOk \<or> local_resp w n q = Ok []"
    and "ini = (if imagenIndex st = []
                then (let (r, s) = construirIndiceImagenes w False st in (success r, s))
                else (True, st))"
    and "listo = fst ini" and "st1 = snd ini"
    and "p = fst (busquedaParcial q st1)" and "st2 = snd (busquedaParcial q st1)"
    and "act = fst (verificarActualizacionIndice w st2)"
    and "st3 = snd (verificarActualizacionIndice w st2)"
    and "st4 = snd (construirIndiceImagenes w True st3)"
    and "q \<noteq> [] \<and> listo \<longrightarrow> (\<forall>a. exacta (imagenIndex st1) q \<noteq> Some (Archivos a))"
    and "q \<noteq> [] \<and> listo \<and> exacta (imagenIndex st1) q = None \<longrightarrow>
           (\<forall>a. desde_alias st1 q \<noteq> Some (Archivos a))"
    and "q \<noteq> [] \<and> listo \<and> exacta (imagenIndex st1) q = None \<and> desde_alias st1 q = None \<longrightarrow>
           p = Some [] \<or> p = None"
    and "q \<noteq> [] \<and> listo \<and> exacta (imagenIndex st1) q = None \<and> desde_alias st1 q = None \<and>
         p = Some [] \<and> fst act \<longrightarrow>
           (\<forall>a. exacta (imagenIndex st4) q \<noteq> Some (Archivos a))"
  shows "fst (findImageUrls w clave st) = [] \<and>
         last (traza (snd (findImageUrls w clave st))) = FetchLocal q"
proof -
  obtain s where "findImageUrls w clave st = buscarImagenesLocales w q s"
    using findImageUrls_termina_en_local [OF assms(1) assms(3-14)] by blast
  then show ?thesis
    using buscarImagenesLocales_nada [OF assms(2), of s] by simp
qed

text \<open>
  Four calls that find nothing. On the index of the first build, an unknown key misses at
  each step, the server being at the version held. With the server at a new version, the
  index is rebuilt and the key misses again. On an index read back from the store under
  the version \<^verbatim>\<open>alias_X\<close>, which holds what the build of the version \<^verbatim>\<open>X\<close> saved as its
  aliases, the exact match finds a string and raises. With no network and nothing stored,
  the first build fails.
\<close>

theorem findImageUrls_sin_resultado_witness:
  "map fst (imagenIndex estado_guardado) = [''i-01-002-03''] \<and>
   fst (findImageUrls (mundo_estable arbol_AB) '' zz-99 '' estado_guardado) = [] \<and>
   last (traza (snd (findImageUrls (mundo_estable arbol_AB) '' zz-99 '' estado_guardado)))
     = FetchLocal ''zz-99'' \<and>
   fst (findImageUrls mundo_D ''X-77-001-01'' estado_guardado) = [] \<and>
   forzadas (snd (findImageUrls mundo_D ''X-77-001-01'' estado_guardado))
     = Suc (forzadas estado_guardado) \<and>
   fst (findImageUrls_try (mundo_token ''alias_X'') ''Plaza Centro'' estado_ida_y_vuelta) = None \<and>
   fst (findImageUrls (mundo_token ''alias_X'') ''Plaza Centro'' estado_ida_y_vuelta) = [] \<and>
   traza (snd (findImageUrls (mundo_token ''alias_X'') ''Plaza Centro'' estado_ida_y_vuelta))
     = [Construir False, FetchVersion, DateNow, LogExacta 11, Warn EnBusqueda,
        FetchLocal ''plaza centro''] \<and>
   fst (findImageUrls mundo_sin_red ''I-01-002-03'' estado_vacio) = []"
proof -
  \<comment> \<open>the version held is that of the server\<close>
  let ?wa = "mundo_estable arbol_AB"
  let ?sa = estado_guardado
  let ?qa = "''zz-99''"
  let ?ia = "(if imagenIndex ?sa = []
              then (let (r, s) = construirIndiceImagenes ?wa False ?sa in (success r, s))
              else (True, ?sa))"
  let ?a2 = "snd (busquedaParcial ?qa (snd ?ia))"
  let ?a3 = "snd (verificarActualizacionIndice ?wa ?a2)"
  let ?a4 = "snd (construirIndiceImagenes ?wa True ?a3)"
  have a1: "?qa = toLowerCase (trim '' zz-99 '')" by code_simp
  have a2: "\<forall>n. local_resp ?wa n ?qa = Throws \<or> local_resp ?wa n ?qa = NotOk \<or>
                local_resp ?wa n ?qa = Ok []"
    by (simp add: mundo_estable_def)
  have ae: "exacta (imagenIndex (snd ?ia)) ?qa = None" by code_simp
  have ad: "desde_alias (snd ?ia) ?qa = None" by code_simp
  have ap: "fst (busquedaParcial ?qa (snd ?ia)) = Some []" by code_simp
  have av: "\<not> fst (fst (verificarActualizacionIndice ?wa ?a2))" by code_simp
  have a11: "?qa \<noteq> [] \<and> fst ?ia \<longrightarrow> (\<forall>a. exacta (imagenIndex (snd ?ia)) ?qa \<noteq> Some (Archivos a))"
    using ae by simp
  have a12: "?qa \<noteq> [] \<and> fst ?ia \<and> exacta (imagenIndex (snd ?ia)) ?qa = None \<longrightarrow>
               (\<forall>a. desde_alias (snd ?ia) ?qa \<noteq> Some (Archivos a))"
    using ad by simp
  have a13: "?qa \<noteq> [] \<and> fst ?ia \<and> exacta (imagenIndex (snd ?ia)) ?qa = None \<and>
             desde_alias (snd ?ia) ?qa = None \<longrightarrow>
               fst (busquedaParcial ?qa (snd ?ia)) = Some [] \<or>
               fst (busquedaParcial ?qa (snd ?ia)) = None"
    using ap by simp
  have a14: "?qa \<noteq> [] \<and> fst ?ia \<and> exacta (imagenIndex (snd ?ia)) ?qa = None \<and>
             desde_alias (snd ?ia) ?qa = None \<and> fst (busquedaParcial ?qa (snd ?ia)) = Some [] \<and>
             fst (fst (verificarActualizacionIndice ?wa ?a2)) \<longrightarrow>
               (\<forall>a. exacta (imagenIndex ?a4) ?qa \<noteq> Some (Archivos a))"
    using av by simp
  note ta = findImageUrls_sin_resultado
              [OF a1 a2 refl refl refl refl refl refl refl refl a11 a12 a13 a14]
  \<comment> \<open>the server has a new version\<close>
  let ?wb = mundo_D
  let ?qb = "''x-77-001-01''"
  let ?ib = "(if imagenIndex ?sa = []
              then (let (r, s) = construirIndiceImagenes ?wb False ?sa in (success r, s))
              else (True, ?sa))"
  let ?b2 = "snd (busquedaParcial ?qb (snd ?ib))"
  let ?b3 = "snd (verificarActualizacionIndice ?wb ?b2)"
  let ?b4 = "snd (construirIndiceImagenes ?wb True ?b3)"
  have b1: "?qb = toLowerCase (trim ''X-77-001-01'')" by code_simp
  have b2: "\<forall>n. local_resp ?wb n ?qb = Throws \<or> local_resp ?wb n ?qb = NotOk \<or>
                local_resp ?wb n ?qb = Ok []"
    by (simp add: mundo_D_def)
  have be: "exacta (imagenIndex (snd ?ib)) ?qb = None" by code_simp
  have bd: "desde_alias (snd ?ib) ?qb = None" by code_simp
  have bp: "fst (busquedaParcial ?qb (snd ?ib)) = Some []" by code_simp
  have br: "exacta (imagenIndex ?b4) ?qb = None" by code_simp
  have b11: "?qb \<noteq> [] \<and> fst ?ib \<longrightarrow> (\<forall>a. exacta (imagenIndex (snd ?ib)) ?qb \<noteq> Some (Archivos a))"
    using be by simp
  have b12: "?qb \<noteq> [] \<and> fst ?ib \<and> exacta (imagenIndex (snd ?ib)) ?qb = None \<longrightarrow>
               (\<forall>a. desde_alias (snd ?ib) ?qb \<noteq> Some (Archivos a))"
    using bd by simp
  have b13: "?qb \<noteq> [] \<and> fst ?ib \<and> exacta (imagenIndex (snd ?ib)) ?qb = None \<and>
             desde_alias (snd ?ib) ?qb = None \<longrightarrow>
               fst (busquedaParcial ?qb (snd ?ib)) = Some [] \<or>
               fst (busquedaParcial ?qb (snd ?ib)) = None"
    using bp by simp
  have b14: "?qb \<noteq> [] \<and> fst ?ib \<and> exacta (imagenIndex (snd ?ib)) ?qb = None \<and>
             desde_alias (snd ?ib) ?qb = None \<and> fst (busquedaParcial ?qb (snd ?ib)) = Some [] \<and>
             fst (fst (verificarActualizacionIndice ?wb ?b2)) \<longrightarrow>
               (\<forall>a. exacta (imagenIndex ?b4) ?qb \<noteq> Some (Archivos a))"
    using br by simp
  note tb = findImageUrls_sin_resultado
              [OF b1 b2 refl refl refl refl refl refl refl refl b11 b12 b13 b14]
  \<comment> \<open>a string in the index\<close>
  let ?wc = "mundo_token ''alias_X''"
  let ?sc = estado_ida_y_vuelta
  let ?qc = "''plaza centro''"
  let ?ic = "(if imagenIndex ?sc = []
              then (let (r, s) = construirIndiceImagenes ?wc False ?sc in (success r, s))
              else (True, ?sc))"
  let ?c2 = "snd (busquedaParcial ?qc (snd ?ic))"
  let ?c3 = "snd (verificarActualizacionIndice ?wc ?c2)"
  let ?c4 = "snd (construirIndiceImagenes ?wc True ?c3)"
  have c1: "?qc = toLowerCase (trim ''Plaza Centro'')" by code_simp
  have c2: "\<forall>n. local_resp ?wc n ?qc = Throws \<or> local_resp ?wc n ?qc = NotOk \<or>
                local_resp ?wc n ?qc = Ok []"
    by (simp add: mundo_token_def)
  have ce: "exacta (imagenIndex (snd ?ic)) ?qc = Some (Texto ''i-01-002-03'')" by code_simp
  have c11: "?qc \<noteq> [] \<and> fst ?ic \<longrightarrow> (\<forall>a. exacta (imagenIndex (snd ?ic)) ?qc \<noteq> Some (Archivos a))"
    using ce by simp
  have c12: "?qc \<noteq> [] \<and> fst ?ic \<and> exacta (imagenIndex (snd ?ic)) ?qc = None \<longrightarrow>
               (\<forall>a. desde_alias (snd ?ic) ?qc \<noteq> Some (Archivos a))"
    using ce by simp
  have c13: "?qc \<noteq> [] \<and> fst ?ic \<and> exacta (imagenIndex (snd ?ic)) ?qc = None \<and>
             desde_alias (snd ?ic) ?qc = None \<longrightarrow>
               fst (busquedaParcial ?qc (snd ?ic)) = Some [] \<or>
               fst (busquedaParcial ?qc (snd ?ic)) = None"
    using ce by simp
  have c14: "?qc \<noteq> [] \<and> fst ?ic \<and> exacta (imagenIndex (snd ?ic)) ?qc = None \<and>
             desde_alias (snd ?ic) ?qc = None \<and> fst (busquedaParcial ?qc (snd ?ic)) = Some [] \<and>
             fst (fst (verificarActualizacionIndice ?wc ?c2)) \<longrightarrow>
               (\<forall>a. exacta (imagenIndex ?c4) ?qc \<noteq> Some (Archivos a))"
    using ce by simp
  note tc = findImageUrls_sin_resultado
              [OF c1 c2 refl refl refl refl refl refl refl refl c11 c12 c13 c14]
  \<comment> \<open>no network, nothing stored\<close>
  let ?wd = mundo_sin_red
  let ?sd = estado_vacio
  let ?qd = "''i-01-002-03''"
  let ?id = "(if imagenIndex ?sd = []
              then (let (r, s) = construirIndiceImagenes ?wd False ?sd in (success r, s))
              else (True, ?sd))"
  let ?d2 = "snd (busquedaParcial ?qd (snd ?id))"
  let ?d3 = "snd (verificarActualizacionIndice ?wd ?d2)"
  let ?d4 = "snd (construirIndiceImagenes ?wd True ?d3)"
  have d1: "?qd = toLowerCase (trim ''I-01-002-03'')" by code_simp
  have d2: "\<forall>n. local_resp ?wd n ?qd = Throws \<or> local_resp ?wd n ?qd = NotOk \<or>
                local_resp ?wd n ?qd = Ok []"
    by (simp add: mundo_sin_red_def)
  have dl: "\<not> fst ?id" by code_simp
  have d11: "?qd \<noteq> [] \<and> fst ?id \<longrightarrow> (\<forall>a. exacta (imagenIndex (snd ?id)) ?qd \<noteq> Some (Archivos a))"
    using dl by simp
  have d12: "?qd \<noteq> [] \<and> fst ?id \<and> exacta (imagenIndex (snd ?id)) ?qd = None \<longrightarrow>
               (\<forall>a. desde_alias (snd ?id) ?qd \<noteq> Some (Archivos a))"
    using dl by simp
  have d13: "?qd \<noteq> [] \<and> fst ?id \<and> exacta (imagenIndex (snd ?id)) ?qd = None \<and>
             desde_alias (snd ?id) ?qd = None \<longrightarrow>
               fst (busquedaParcial ?qd (snd ?id)) = Some [] \<or>
               fst (busquedaParcial ?qd (snd ?id)) = None"
    using dl by simp
  have d14: "?qd \<noteq> [] \<and> fst ?id \<and> exacta (imagenIndex (snd ?id)) ?qd = None \<and>
             desde_alias (snd ?id) ?qd = None \<and> fst (busquedaParcial ?qd (snd ?id)) = Some [] \<and>
             fst (fst (verificarActualizacionIndice ?wd ?d2)) \<longrightarrow>
               (\<forall>a. exacta (imagenIndex ?d4) ?qd \<noteq> Some (Archivos a))"
    using dl by simp
  note td = findImageUrls_sin_resultado
              [OF d1 d2 refl refl refl refl refl refl refl refl d11 d12 d13 d14]
  have k: "map fst (imagenIndex estado_guardado) = [''i-01-002-03'']" by code_simp
  have f: "forzadas (snd (findImageUrls mundo_D ''X-77-001-01'' estado_guardado))
             = Suc (forzadas estado_guardado)" by code_simp
  have r: "fst (findImageUrls_try ?wc ''Plaza Centro'' ?sc) = None" by code_simp
  have t: "traza (snd (findImageUrls ?wc ''Plaza Centro'' ?sc))
     = [Construir False, FetchVersion, DateNow, LogExacta 11, Warn EnBusqueda,
        FetchLocal ''plaza centro'']" by code_simp
  from ta tb tc td k f r t show ?thesis by blast
qed

lemma forzadas_emitir:
  "forzadas (emitir e st) = forzadas st + (if e = Construir True then 1 else 0)"
  by (simp add: forzadas_def emitir_def)

lemma forzadas_obtener_version: "forzadas (snd (obtener_version w st)) = forzadas st"
  by (simp add: obtener_version_def fetch_version_def forzadas_def emitir_def Let_def
        split: response.splits)

lemma forzadas_cargarDesdeCacheLocal: "forzadas (snd (cargarDesdeCacheLocal w v st)) = forzadas st"
  by (simp add: cargarDesdeCacheLocal_def date_now_def forzadas_def emitir_def Let_def
        split: option.splits)

lemma forzadas_guardar: "forzadas (guardarEnCacheLocal w v c a st) = forzadas st"
  by (simp add: guardarEnCacheLocal_def date_now_def forzadas_def emitir_def Let_def
        split: option.splits)

lemma forzadas_fallback_loop: "forzadas (snd (fallback_loop ls keys st)) = forzadas st"
  by (induction keys) (simp_all add: forzadas_def emitir_def Let_def split: option.splits)

lemma forzadas_descargar: "forzadas (snd (descargar_e_instalar w v st)) = forzadas st"
proof -
  let ?s = "emitir (Warn EnConstruir) (emitir FetchTree st)"
  obtain fb s2 where cf: "cargarFallbackLocal ?s = (fb, s2)" by (cases "cargarFallbackLocal ?s")
  have "forzadas (snd (cargarFallbackLocal ?s)) = forzadas ?s"
    by (simp add: cargarFallbackLocal_def forzadas_fallback_loop)
  then have f: "forzadas s2 = forzadas st" using cf by (simp add: forzadas_emitir)
  show ?thesis
  proof (cases "tree_resp w (count_list (traza st) FetchTree)")
    case (Ok d)
    then show ?thesis
      by (simp add: descargar_e_instalar_def fetch_tree_def Let_def forzadas_guardar)
         (simp add: forzadas_def emitir_def)
  next
    case Throws
    then show ?thesis
      using f cf
      by (simp add: descargar_e_instalar_def fetch_tree_def Let_def split: option.splits)
  next
    case NotOk
    then show ?thesis
      using f cf
      by (simp add: descargar_e_instalar_def fetch_tree_def Let_def split: option.splits)
  qed
qed

lemma forzadas_construir:
  "forzadas (snd (construirIndiceImagenes w f st)) = forzadas st + (if f then 1 else 0)"
proof -
  obtain v st1 where o: "obtener_version w (emitir (Construir f) st) = (v, st1)"
    by (cases "obtener_version w (emitir (Construir f) st)")
  have f1: "forzadas st1 = forzadas st + (if f then 1 else 0)"
    using forzadas_obtener_version [of w "emitir (Construir f) st"] o
    by (simp add: forzadas_emitir)
  obtain cached st2 where c: "(if \<not> f \<and> v \<noteq> ''unknown''
                  then cargarDesdeCacheLocal w v st1 else (None, st1)) = (cached, st2)"
    by (cases "(if \<not> f \<and> v \<noteq> ''unknown''
                  then cargarDesdeCacheLocal w v st1 else (None, st1))")
  have f2: "forzadas st2 = forzadas st1"
    using c forzadas_cargarDesdeCacheLocal [of w v st1] by (auto split: if_splits)
  show ?thesis
    using o c f1 f2 forzadas_descargar [of w v st2]
    by (auto simp: construirIndiceImagenes_def Let_def split: option.splits)
qed

lemma forzadas_busquedaParcial: "forzadas (snd (busquedaParcial q st)) = forzadas st"
  by (simp add: busquedaParcial_def forzadas_def emitir_def split: prod.splits option.splits)

lemma forzadas_buscarImagenesLocales: "forzadas (snd (buscarImagenesLocales w c st)) = forzadas st"
  by (simp add: buscarImagenesLocales_def fetch_local_def forzadas_def emitir_def
        split: response.splits)

lemma traza_buscarImagenesLocales:
  "traza (snd (buscarImagenesLocales w c st)) = traza st @ [FetchLocal c]"
  by (simp add: buscarImagenesLocales_def fetch_local_def emitir_def split: response.splits)

lemma verificar_necesita:
  assumes "version_resp w (count_list (traza st) FetchVersion) = Ok dv"
    and "o_bien (vp_version dv) (vp_lastModified dv) = Some nv" and "nv \<noteq> []"
    and "driveTreeVersion st \<noteq> Some nv"
  shows "verificarActualizacionIndice w st = ((True, Some nv), emitir FetchVersion st)"
  using assms
  by (simp add: verificarActualizacionIndice_def fetch_version_def truthy_def emitir_def)

text \<open>
  C4. Let the index be there (or be built at the start of the call), let steps 1 to 3 miss
  on it, and let the server answer with a version token, not empty, that differs from the
  version held. Then the call enters \<^verbatim>\<open>construirIndiceImagenes(true)\<close> exactly once, looks the
  key up again with the exact match only, and returns the URLs found or else asks the local
  endpoint, which is the last thing it does (after a warning, when what the exact match
  found is a string and taking its URLs raises). No alias lookup and no partial search is
  made on the new index.
\<close>

theorem findImageUrls_una_reconstruccion:
  assumes "q = toLowerCase (trim clave)" and "q \<noteq> []"
    and "(imagenIndex st \<noteq> [] \<and> st1 = st) \<or>
         (imagenIndex st = [] \<and> success (fst (construirIndiceImagenes w False st)) \<and>
          st1 = snd (construirIndiceImagenes w False st))"
    and "exacta (imagenIndex st1) q = None" and "desde_alias st1 q = None"
    and "busquedaParcial q st1 = (Some [], st2)"
    and "version_resp w (count_list (traza st2) FetchVersion) = Ok dv"
    and "o_bien (vp_version dv) (vp_lastModified dv) = Some nv" and "nv \<noteq> []"
    and "driveTreeVersion st2 \<noteq> Some nv"
    and "st4 = snd (construirIndiceImagenes w True (emitir FetchVersion st2))"
  shows "findImageUrls w clave st =
           (case exacta (imagenIndex st4) q of
              Some (Archivos reintento) \<Rightarrow> (map img_url reintento, st4)
            | Some (Texto s) \<Rightarrow> buscarImagenesLocales w q (emitir (Warn EnBusqueda) st4)
            | None \<Rightarrow> buscarImagenesLocales w q st4) \<and>
         forzadas (snd (findImageUrls w clave st)) = Suc (forzadas st) \<and>
         (exacta (imagenIndex st4) q = None \<longrightarrow>
            traza (snd (findImageUrls w clave st)) = traza st4 @ [FetchLocal q]) \<and>
         ((\<exists>s. exacta (imagenIndex st4) q = Some (Texto s)) \<longrightarrow>
            traza (snd (findImageUrls w clave st))
              = traza st4 @ [Warn EnBusqueda, FetchLocal q])"
proof -
  have p: "(if imagenIndex st = []
            then (let (r, s) = construirIndiceImagenes w False st in (success r, s))
            else (True, st)) = (True, st1)"
    using assms(3) by (auto simp: Let_def split: prod.splits)
  have f1: "forzadas st1 = forzadas st"
    using assms(3) forzadas_construir [of w False st] by auto
  have f2: "forzadas st2 = forzadas st1"
    using forzadas_busquedaParcial [of q st1] assms(6) by simp
  have va: "verificarActualizacionIndice w st2 = ((True, Some nv), emitir FetchVersion st2)"
    by (rule verificar_necesita [OF assms(7-10)])
  obtain r where ci: "construirIndiceImagenes w True (emitir FetchVersion st2) = (r, st4)"
    using assms(11) by (cases "construirIndiceImagenes w True (emitir FetchVersion st2)") simp
  have f4: "forzadas st4 = Suc (forzadas st)"
    using forzadas_construir [of w True "emitir FetchVersion st2"] ci f1 f2
    by (simp add: forzadas_emitir)
  note c = assms(1) [symmetric]
  have e: "findImageUrls w clave st =
           (case exacta (imagenIndex st4) q of
              Some (Archivos reintento) \<Rightarrow> (map img_url reintento, st4)
            | Some (Texto s) \<Rightarrow> buscarImagenesLocales w q (emitir (Warn EnBusqueda) st4)
            | None \<Rightarrow> buscarImagenesLocales w q st4)"
    using assms(2,4,5,6) p va ci
    by (simp add: findImageUrls_def findImageUrls_try_def c urls_de_def
          split: option.splits valor.splits prod.splits)
  have c2: "forzadas (snd (findImageUrls w clave st)) = Suc (forzadas st)"
    using e f4 forzadas_buscarImagenesLocales [of w q st4]
      forzadas_buscarImagenesLocales [of w q "emitir (Warn EnBusqueda) st4"]
    by (simp add: forzadas_emitir split: option.splits valor.splits)
  have t: "exacta (imagenIndex st4) q = None \<longrightarrow>
            traza (snd (findImageUrls w clave st)) = traza st4 @ [FetchLocal q]"
    using e traza_buscarImagenesLocales [of w q st4] by simp
  have t2: "(\<exists>s. exacta (imagenIndex st4) q = Some (Texto s)) \<longrightarrow>
            traza (snd (findImageUrls w clave st))
              = traza st4 @ [Warn EnBusqueda, FetchLocal q]"
    using e traza_buscarImagenesLocales [of w q "emitir (Warn EnBusqueda) st4"]
    by (auto simp: emitir_def)
  from e c2 t t2 show ?thesis by blast
qed

text \<open>
  Scenario D: the version held is \<^verbatim>\<open>v1\<close> and the server is at \<^verbatim>\<open>v2\<close>. A key of the new tree is
  found after the one forced build; a key that the new tree does not have either goes to the
  local endpoint.
\<close>

theorem findImageUrls_una_reconstruccion_witness:
  "driveTreeVersion estado_guardado = Some ''v1'' \<and>
   fst (findImageUrls mundo_D ''I-09-001-01'' estado_guardado) = [driveUrl ''f9''] \<and>
   forzadas (snd (findImageUrls mundo_D ''I-09-001-01'' estado_guardado))
     = Suc (forzadas estado_guardado) \<and>
   fst (findImageUrls mundo_D ''I-09-001-02'' estado_guardado) = [] \<and>
   forzadas (snd (findImageUrls mundo_D ''I-09-001-02'' estado_guardado))
     = Suc (forzadas estado_guardado) \<and>
   last (traza (snd (findImageUrls mundo_D ''I-09-001-02'' estado_guardado)))
     = FetchLocal ''i-09-001-02''"
proof -
  let ?st = estado_guardado
  let ?dv = "\<lparr> vp_version = Some ''v2'', vp_lastModified = None \<rparr>"
  let ?st4 = "snd (construirIndiceImagenes mundo_D True (emitir FetchVersion ?st))"
  have v: "driveTreeVersion ?st = Some ''v1''" by code_simp
  have h3: "(imagenIndex ?st \<noteq> [] \<and> ?st = ?st) \<or>
         (imagenIndex ?st = [] \<and> success (fst (construirIndiceImagenes mundo_D False ?st)) \<and>
          ?st = snd (construirIndiceImagenes mundo_D False ?st))" by code_simp
  have h7: "version_resp mundo_D (count_list (traza ?st) FetchVersion) = Ok ?dv" by code_simp
  have h8: "o_bien (vp_version ?dv) (vp_lastModified ?dv) = Some ''v2''" by code_simp
  have h9: "''v2'' \<noteq> []" by simp
  have h10: "driveTreeVersion ?st \<noteq> Some ''v2''" by code_simp
  have a1: "''i-09-001-01'' = toLowerCase (trim ''I-09-001-01'')" by code_simp
  have a2: "''i-09-001-01'' \<noteq> []" by simp
  have a4: "exacta (imagenIndex ?st) ''i-09-001-01'' = None" by code_simp
  have a5: "desde_alias ?st ''i-09-001-01'' = None" by code_simp
  have a6: "busquedaParcial ''i-09-001-01'' ?st = (Some [], ?st)" by code_simp
  have ar: "exacta (imagenIndex ?st4) ''i-09-001-01''
              = Some (Archivos [imagen_de (driveUrl ''f9'')])"
    by code_simp
  have b1: "''i-09-001-02'' = toLowerCase (trim ''I-09-001-02'')" by code_simp
  have b2: "''i-09-001-02'' \<noteq> []" by simp
  have b4: "exacta (imagenIndex ?st) ''i-09-001-02'' = None" by code_simp
  have b5: "desde_alias ?st ''i-09-001-02'' = None" by code_simp
  have b6: "busquedaParcial ''i-09-001-02'' ?st = (Some [], ?st)" by code_simp
  have br: "exacta (imagenIndex ?st4) ''i-09-001-02'' = None" by code_simp
  have bl: "fst (buscarImagenesLocales mundo_D ''i-09-001-02'' ?st4) = []" by code_simp
  note t1 = findImageUrls_una_reconstruccion [OF a1 a2 h3 a4 a5 a6 h7 h8 h9 h10 refl]
  note t2 = findImageUrls_una_reconstruccion [OF b1 b2 h3 b4 b5 b6 h7 h8 h9 h10 refl]
  have r1: "fst (findImageUrls mundo_D ''I-09-001-01'' ?st) = [driveUrl ''f9'']"
    using t1 [THEN conjunct1] ar by (simp add: imagen_de_def)
  have r2: "fst (findImageUrls mundo_D ''I-09-001-02'' ?st) = []"
    using t2 [THEN conjunct1] br bl by simp
  have r3: "last (traza (snd (findImageUrls mundo_D ''I-09-001-02'' ?st))) = FetchLocal ''i-09-001-02''"
    using t2 [THEN conjunct2, THEN conjunct2] br by simp
  from v r1 r2 r3 t1 [THEN conjunct2, THEN conjunct1] t2 [THEN conjunct2, THEN conjunct1]
  show ?thesis by blast
qed

end
